theory Spec2Isabelle
  imports Complex_Main
begin

section \<open>Python values\<close>

text \<open>
  The handlers of \<^verbatim>\<open>api/app/main.py\<close> work on the decoded JSON body of an
  Elasticsearch response: dynamically typed Python values. A float is a real number or
  one of the three special values; arithmetic on the real part is exact, rounding is not
  modelled. A datetime carries its calendar fields and an optional UTC offset in seconds
  (\<open>None\<close>: a naive datetime).
\<close>

datatype pyfloat = FVal real | FInf | FNegInf | FNaN

record pydatetime =
  year :: int
  month :: int
  day :: int
  hour :: int
  minute :: int
  second :: int
  microsecond :: int
  tzinfo :: "int option"

datatype pyval =
    PNone
  | PBool bool
  | PInt int
  | PFloat pyfloat
  | PStr string
  | PList "pyval list"
  | PDict "(string \<times> pyval) list"
  | PDatetime pydatetime

text \<open>
  Exceptions are values. All of them are subclasses of Python's \<open>Exception\<close>, so an
  \<^verbatim>\<open>except Exception\<close> clause catches every one. \<open>HTTPException\<close> carries its
  status code; the detail text is not modelled. \<open>TransportError\<close> stands for whatever
  the Elasticsearch client raises.
\<close>

datatype exc =
    ValueError
  | TypeError
  | OverflowError
  | AttributeError
  | ValidationError
  | OSError
  | TransportError
  | HTTPException int

definition bindE :: "exc + 'a \<Rightarrow> ('a \<Rightarrow> exc + 'b) \<Rightarrow> exc + 'b" where
  "bindE m f = (case m of Inl e \<Rightarrow> Inl e | Inr x \<Rightarrow> f x)"

subsection \<open>Built-in operations\<close>

text \<open>Truth value testing, as \<^verbatim>\<open>x or y\<close> uses it.\<close>

fun truthy :: "pyval \<Rightarrow> bool" where
  "truthy PNone = False"
| "truthy (PBool b) = b"
| "truthy (PInt i) = (i \<noteq> 0)"
| "truthy (PFloat (FVal r)) = (r \<noteq> 0)"
| "truthy (PFloat _) = True"
| "truthy (PStr s) = (s \<noteq> [])"
| "truthy (PList xs) = (xs \<noteq> [])"
| "truthy (PDict kvs) = (kvs \<noteq> [])"
| "truthy (PDatetime _) = True"

definition py_or :: "pyval \<Rightarrow> pyval \<Rightarrow> pyval" where
  "py_or x y = (if truthy x then x else y)"

text \<open>
  \<^verbatim>\<open>d.get(k, default)\<close>: a dictionary is an association list read at the first entry
  of the key; on a value that is no dictionary the attribute \<open>get\<close> does not exist.
\<close>

definition dict_get :: "(string \<times> pyval) list \<Rightarrow> string \<Rightarrow> pyval \<Rightarrow> pyval" where
  "dict_get kvs k d = (case map_of kvs k of None \<Rightarrow> d | Some v \<Rightarrow> v)"

fun py_get :: "pyval \<Rightarrow> string \<Rightarrow> pyval \<Rightarrow> exc + pyval" where
  "py_get (PDict kvs) k d = Inr (dict_get kvs k d)"
| "py_get _ k d = Inl AttributeError"

text \<open>Iteration of a \<^verbatim>\<open>for\<close> loop: a list gives its elements, a dictionary its keys,
  a string its characters; the other values are not iterable.\<close>

fun py_iter :: "pyval \<Rightarrow> exc + pyval list" where
  "py_iter (PList xs) = Inr xs"
| "py_iter (PDict kvs) = Inr (map PStr (remdups (map fst kvs)))"
| "py_iter (PStr s) = Inr (map (\<lambda>c. PStr [c]) s)"
| "py_iter _ = Inl TypeError"

subsection \<open>Floats\<close>

fun fadd :: "pyfloat \<Rightarrow> pyfloat \<Rightarrow> pyfloat" where
  "fadd FNaN _ = FNaN"
| "fadd _ FNaN = FNaN"
| "fadd FInf FNegInf = FNaN"
| "fadd FNegInf FInf = FNaN"
| "fadd FInf _ = FInf"
| "fadd _ FInf = FInf"
| "fadd FNegInf _ = FNegInf"
| "fadd _ FNegInf = FNegInf"
| "fadd (FVal a) (FVal b) = FVal (a + b)"

text \<open>The comparison \<^verbatim>\<open>a == b\<close> of floats: NaN is equal to nothing.\<close>

definition feq :: "pyfloat \<Rightarrow> pyfloat \<Rightarrow> bool" where
  "feq a b = (a \<noteq> FNaN \<and> b \<noteq> FNaN \<and> a = b)"

text \<open>Division of a float by the positive constant \<open>1000.0\<close>.\<close>

fun fdiv1000 :: "pyfloat \<Rightarrow> pyfloat" where
  "fdiv1000 (FVal r) = FVal (r / 1000)"
| "fdiv1000 f = f"

text \<open>An int converts to a float unless it rounds beyond the largest double.\<close>

definition int_to_float :: "int \<Rightarrow> exc + pyfloat" where
  "int_to_float i =
     (if \<bar>i\<bar> \<ge> 2 ^ 1024 - 2 ^ 970 then Inl OverflowError else Inr (FVal (of_int i)))"

text \<open>\<^verbatim>\<open>sum(xs)\<close> over floats: the additions from the left, starting at \<open>0\<close>.\<close>

definition py_sum :: "pyfloat list \<Rightarrow> pyfloat" where
  "py_sum xs = foldl fadd (FVal 0) xs"

section \<open>Datetimes\<close>

text \<open>Days between 1970-01-01 and a date of the proleptic Gregorian calendar, and back.\<close>

definition days_from_civil :: "int \<Rightarrow> int \<Rightarrow> int \<Rightarrow> int" where
  "days_from_civil y m d =
     (let y' = (if m \<le> 2 then y - 1 else y);
          era = y' div 400;
          yoe = y' - era * 400;
          doy = (153 * (if m > 2 then m - 3 else m + 9) + 2) div 5 + d - 1;
          doe = yoe * 365 + yoe div 4 - yoe div 100 + doy
      in era * 146097 + doe - 719468)"

definition civil_from_days :: "int \<Rightarrow> int \<times> int \<times> int" where
  "civil_from_days z =
     (let z' = z + 719468;
          era = z' div 146097;
          doe = z' - era * 146097;
          yoe = (doe - doe div 1460 + doe div 36524 - doe div 146096) div 365;
          doy = doe - (365 * yoe + yoe div 4 - yoe div 100);
          mp = (5 * doy + 2) div 153;
          d = doy - (153 * mp + 2) div 5 + 1;
          m = (if mp < 10 then mp + 3 else mp - 9);
          y = yoe + era * 400
      in ((if m \<le> 2 then y + 1 else y), m, d))"

text \<open>
  The point on the UTC time line a datetime denotes, in microseconds since the epoch.
  A naive datetime is read as UTC, which is what \<^verbatim>\<open>utcfromtimestamp\<close> produces.
\<close>

definition utc_instant :: "pydatetime \<Rightarrow> int" where
  "utc_instant dt =
     ((days_from_civil (year dt) (month dt) (day dt) * 86400
        + hour dt * 3600 + minute dt * 60 + second dt
        - (case tzinfo dt of None \<Rightarrow> 0 | Some off \<Rightarrow> off)) * 1000000
      + microsecond dt)"

text \<open>The naive datetime of a count of microseconds since the epoch. The C library's
  \<^verbatim>\<open>gmtime_r\<close> fails when the year, counted from 1900, does not fit a 32-bit int;
  years outside 1..9999 do not exist in \<^verbatim>\<open>datetime\<close>.\<close>

definition datetime_of_us :: "int \<Rightarrow> exc + pydatetime" where
  "datetime_of_us us =
     (let secs = us div 1000000;
          days = secs div 86400;
          sod = secs mod 86400
      in case civil_from_days days of (y, m, d) \<Rightarrow>
           if y - 1900 < - (2 ^ 31) \<or> y - 1900 \<ge> 2 ^ 31 then Inl OSError
           else if y < 1 \<or> y > 9999 then Inl ValueError
           else Inr \<lparr> year = y, month = m, day = d,
                      hour = sod div 3600, minute = (sod mod 3600) div 60, second = sod mod 60,
                      microsecond = us mod 1000000, tzinfo = None \<rparr>)"

text \<open>Rounding to the nearest integer, ties to the even one.\<close>

definition round_half_even :: "real \<Rightarrow> int" where
  "round_half_even r =
     (let f = \<lfloor>r\<rfloor>; d = r - of_int f
      in if d < 1 / 2 then f else if d > 1 / 2 then f + 1 else if even f then f else f + 1)"

text \<open>
  \<^verbatim>\<open>datetime.utcfromtimestamp(t)\<close> for a number of seconds \<open>t\<close>: a float is rounded
  to microseconds; a timestamp outside the platform's 64-bit \<^verbatim>\<open>time_t\<close> overflows,
  one outside the years 1..9999 is a \<open>ValueError\<close>, as is NaN.
\<close>

definition us_to_datetime :: "int \<Rightarrow> exc + pydatetime" where
  "us_to_datetime us =
     (if us div 1000000 < - (2 ^ 63) \<or> us div 1000000 \<ge> 2 ^ 63 then Inl OverflowError
      else datetime_of_us us)"

fun utcfromtimestamp :: "pyval \<Rightarrow> exc + pydatetime" where
  "utcfromtimestamp (PInt i) = us_to_datetime (i * 1000000)"
| "utcfromtimestamp (PBool b) = us_to_datetime (if b then 1000000 else 0)"
| "utcfromtimestamp (PFloat (FVal r)) = us_to_datetime (round_half_even (r * 1000000))"
| "utcfromtimestamp (PFloat FNaN) = Inl ValueError"
| "utcfromtimestamp (PFloat _) = Inl OverflowError"
| "utcfromtimestamp _ = Inl TypeError"

text \<open>The comparison \<^verbatim>\<open>value > 10_000_000_000\<close> and the division
  \<^verbatim>\<open>value / 1000.0\<close> on the numeric values.\<close>

fun gt_threshold :: "pyval \<Rightarrow> bool" where
  "gt_threshold (PInt i) = (i > 10000000000)"
| "gt_threshold (PFloat (FVal r)) = (r > 10000000000)"
| "gt_threshold (PFloat FInf) = True"
| "gt_threshold _ = False"

fun div_1000 :: "pyval \<Rightarrow> exc + pyval" where
  "div_1000 (PInt i) = bindE (int_to_float i) (\<lambda>f. Inr (PFloat (fdiv1000 f)))"
| "div_1000 (PBool b) = Inr (PFloat (FVal ((if b then 1 else 0) / 1000)))"
| "div_1000 (PFloat f) = Inr (PFloat (fdiv1000 f))"
| "div_1000 _ = Inl TypeError"

section \<open>Rendering\<close>

text \<open>Decimal digits of a natural number, and zero padding on the left to a width.\<close>

definition digit_char :: "nat \<Rightarrow> char" where
  "digit_char n = ''0123456789'' ! (n mod 10)"

function digits_of :: "nat \<Rightarrow> string" where
  "digits_of n = (if n < 10 then [digit_char n] else digits_of (n div 10) @ [digit_char n])"
  by pat_completeness auto
termination
  by (relation "measure id") auto

definition show_int :: "int \<Rightarrow> string" where
  "show_int i = (if i < 0 then CHR ''-'' # digits_of (nat (- i)) else digits_of (nat i))"

definition pad :: "nat \<Rightarrow> int \<Rightarrow> string" where
  "pad w i = (let ds = digits_of (nat i) in replicate (w - length ds) CHR ''0'' @ ds)"

text \<open>
  \<^verbatim>\<open>dt.isoformat()\<close>: \<open>YYYY-MM-DDTHH:MM:SS\<close>, then the microseconds when they are not
  zero, then the UTC offset of an aware datetime.
\<close>

definition isoformat :: "pydatetime \<Rightarrow> string" where
  "isoformat dt =
     pad 4 (year dt) @ ''-'' @ pad 2 (month dt) @ ''-'' @ pad 2 (day dt) @ ''T''
     @ pad 2 (hour dt) @ '':'' @ pad 2 (minute dt) @ '':'' @ pad 2 (second dt)
     @ (if microsecond dt = 0 then [] else ''.'' @ pad 6 (microsecond dt))
     @ (case tzinfo dt of
          None \<Rightarrow> []
        | Some off \<Rightarrow>
            (if off < 0 then ''-'' else ''+'')
            @ pad 2 (\<bar>off\<bar> div 3600) @ '':'' @ pad 2 ((\<bar>off\<bar> mod 3600) div 60)
            @ (if \<bar>off\<bar> mod 60 = 0 then [] else '':'' @ pad 2 (\<bar>off\<bar> mod 60)))"

section \<open>The environment of the handlers\<close>

text \<open>
  What the module imports and does not define is a parameter of the model:
  \<^item> \<open>isoparse\<close>: \<^verbatim>\<open>dateutil.parser.isoparse\<close>, the datetime of a string or the
    exception it raises;
  \<^item> \<open>float_of_str\<close>: the built-in \<^verbatim>\<open>float\<close> on a string;
  \<^item> \<open>repr_of\<close>: the built-in \<^verbatim>\<open>str\<close> on floats, lists, dictionaries and datetimes;
  \<^item> \<open>pyd_float\<close>, \<open>pyd_int\<close>: pydantic's validation of an arbitrary value for a
    \<^verbatim>\<open>float\<close> and an \<^verbatim>\<open>int\<close> field;
  \<^item> \<open>es_search\<close>: the call \<^verbatim>\<open>es.search(...)\<close>, the response body or the exception;
  \<^item> \<open>ES_INDEX\<close>: the configured index name.
\<close>

record es_request =
  req_index :: string
  req_from :: "int option"
  req_size :: int
  req_query :: pyval
  req_sort :: "pyval option"
  req_aggs :: "pyval option"

record env =
  isoparse :: "string \<Rightarrow> exc + pydatetime"
  float_of_str :: "string \<Rightarrow> exc + pyfloat"
  repr_of :: "pyval \<Rightarrow> string"
  pyd_float :: "pyval \<Rightarrow> exc + pyfloat"
  pyd_int :: "pyval \<Rightarrow> exc + int"
  es_search :: "es_request \<Rightarrow> exc + pyval"
  ES_INDEX :: string

section \<open>The module main.py\<close>

subsection \<open>parse_iso and _parse_created_at\<close>

text \<open>\<^verbatim>\<open>parse_iso\<close> (lines 25-29): any exception of the parser becomes HTTP 400.\<close>

definition parse_iso :: "env \<Rightarrow> string \<Rightarrow> exc + pydatetime" where
  "parse_iso E s = (case isoparse E s of Inr dt \<Rightarrow> Inr dt | Inl e \<Rightarrow> Inl (HTTPException 400))"

text \<open>The \<^verbatim>\<open>isinstance\<close> tests of \<^verbatim>\<open>_parse_created_at\<close>.\<close>

fun is_datetime :: "pyval \<Rightarrow> bool" where
  "is_datetime (PDatetime _) = True"
| "is_datetime _ = False"

fun is_numeric :: "pyval \<Rightarrow> bool" where
  "is_numeric (PInt _) = True"
| "is_numeric (PFloat _) = True"
| "is_numeric (PBool _) = True"
| "is_numeric _ = False"

fun is_str :: "pyval \<Rightarrow> bool" where
  "is_str (PStr _) = True"
| "is_str _ = False"

text \<open>
  \<^verbatim>\<open>_parse_created_at\<close> (lines 32-51). The result \<open>Inr None\<close> is the return value
  \<^verbatim>\<open>None\<close>; \<open>Inl e\<close> is an exception that leaves the function. Only the string branch
  has a \<^verbatim>\<open>try\<close>. A bool is an instance of \<^verbatim>\<open>int\<close>. \<open>epoch_branch\<close> is the body
  of the numeric branch (lines 42-45).
\<close>

definition epoch_branch :: "pyval \<Rightarrow> exc + pydatetime option" where
  "epoch_branch v =
     (if gt_threshold v
      then bindE (div_1000 v) (\<lambda>q. bindE (utcfromtimestamp q) (\<lambda>dt. Inr (Some dt)))
      else bindE (utcfromtimestamp v) (\<lambda>dt. Inr (Some dt)))"

fun parse_created_at :: "env \<Rightarrow> pyval \<Rightarrow> exc + pydatetime option" where
  "parse_created_at E PNone = Inr None"
| "parse_created_at E (PDatetime dt) = Inr (Some dt)"
| "parse_created_at E (PInt i) = epoch_branch (PInt i)"
| "parse_created_at E (PBool b) = epoch_branch (PBool b)"
| "parse_created_at E (PFloat f) = epoch_branch (PFloat f)"
| "parse_created_at E (PStr s) =
     (case isoparse E s of Inr dt \<Rightarrow> Inr (Some dt) | Inl e \<Rightarrow> Inr None)"
| "parse_created_at E _ = Inr None"

subsection \<open>Conversions with the built-ins str and float\<close>

text \<open>\<^verbatim>\<open>str(v)\<close>: a string is itself.\<close>

fun py_str :: "env \<Rightarrow> pyval \<Rightarrow> string" where
  "py_str E (PStr s) = s"
| "py_str E PNone = ''None''"
| "py_str E (PBool b) = (if b then ''True'' else ''False'')"
| "py_str E (PInt i) = show_int i"
| "py_str E v = repr_of E v"

text \<open>\<^verbatim>\<open>float(v)\<close>.\<close>

fun py_float :: "env \<Rightarrow> pyval \<Rightarrow> exc + pyfloat" where
  "py_float E (PFloat f) = Inr f"
| "py_float E (PInt i) = int_to_float i"
| "py_float E (PBool b) = Inr (FVal (if b then 1 else 0))"
| "py_float E (PStr s) = float_of_str E s"
| "py_float E _ = Inl TypeError"

subsection \<open>The response schemas\<close>

text \<open>
  The pydantic models of lines 57-89. The fields of \<open>Transaction\<close> are \<open>id\<close>, \<open>type\<close>,
  \<open>created_at\<close>, \<open>client_id\<close>, \<open>payer_id\<close> and \<open>amount\<close>, here with the prefix \<open>tx_\<close>;
  those of the search response are \<open>total\<close>, \<open>page\<close>, \<open>size\<close> and \<open>items\<close>, here with
  the prefix \<open>resp_\<close>.
\<close>

record Transaction =
  tx_id :: string
  tx_type :: string
  tx_created_at :: pydatetime
  tx_client_id :: string
  tx_payer_id :: string
  tx_amount :: pyfloat

record TransactionSearchItem =
  item_id :: string
  score :: pyfloat
  source :: Transaction

record TransactionSearchResponse =
  resp_total :: int
  resp_page :: int
  resp_size :: int
  resp_items :: "TransactionSearchItem list"

record DailyTotalsBucket =
  date :: pydatetime
  totalsByType :: "(string \<times> pyfloat) list"
  totalAllTypes :: pyfloat

record DailyTotalsResponse =
  clientId :: string
  startDate :: pydatetime
  endDate :: pydatetime
  buckets :: "DailyTotalsBucket list"

text \<open>
  The call \<^verbatim>\<open>Transaction(id=..., ...)\<close> on values that already have the declared
  Python types. The model declares plain \<^verbatim>\<open>str\<close>, \<^verbatim>\<open>datetime\<close> and \<^verbatim>\<open>float\<close>
  fields: no length constraint on a string, and a float field admits infinities and NaN.
\<close>

definition Transaction_init ::
  "string \<Rightarrow> string \<Rightarrow> pydatetime \<Rightarrow> string \<Rightarrow> string \<Rightarrow> pyfloat \<Rightarrow> exc + Transaction" where
  "Transaction_init i t c cl p a =
     Inr \<lparr> tx_id = i, tx_type = t, tx_created_at = c, tx_client_id = cl, tx_payer_id = p,
           tx_amount = a \<rparr>"

subsection \<open>search_transactions\<close>

text \<open>
  The body of the loop over the hits (lines 135-171). \<open>Inr None\<close> is the
  \<^verbatim>\<open>continue\<close> of the \<^verbatim>\<open>except ValidationError\<close> clause, \<open>Inl e\<close> an exception
  that leaves the loop and the handler. Only \<^verbatim>\<open>float(tx_amount_raw)\<close> and the
  construction of the \<open>Transaction\<close> stand inside a \<^verbatim>\<open>try\<close>.
\<close>

definition map_hit :: "env \<Rightarrow> pyval \<Rightarrow> exc + TransactionSearchItem option" where
  "map_hit E h =
     bindE (py_get h ''_source'' (PDict [])) (\<lambda>src0.
     let src = py_or src0 (PDict []) in
     bindE (py_get src ''id'' PNone) (\<lambda>id0.
     bindE (if truthy id0 then Inr id0 else py_get h ''_id'' (PStr [])) (\<lambda>id1.
     let tx_id' = py_str E id1 in
     bindE (py_get src ''type'' (PStr [])) (\<lambda>ty.
     let tx_type' = py_str E ty in
     bindE (py_get src ''client_id'' (PStr [])) (\<lambda>cl.
     let tx_client = py_str E cl in
     bindE (py_get src ''payer_id'' (PStr [])) (\<lambda>pa.
     let tx_payer = py_str E pa in
     bindE (py_get src ''amount'' (PFloat (FVal 0))) (\<lambda>tx_amount_raw.
     let tx_amount' = (case py_float E tx_amount_raw of Inr f \<Rightarrow> f | Inl e \<Rightarrow> FVal 0) in
     bindE (py_get src ''created_at'' PNone) (\<lambda>cr.
     bindE (parse_created_at E cr) (\<lambda>parsed.
     bindE (case parsed of None \<Rightarrow> utcfromtimestamp (PInt 0) | Some dt \<Rightarrow> Inr dt) (\<lambda>tx_created.
     case Transaction_init tx_id' tx_type' tx_created tx_client tx_payer tx_amount' of
       Inl ValidationError \<Rightarrow> Inr None
     | Inl e \<Rightarrow> Inl e
     | Inr tx \<Rightarrow>
         bindE (py_get h ''_score'' PNone) (\<lambda>sc0.
         bindE (pyd_float E (py_or sc0 (PFloat (FVal 0)))) (\<lambda>sc.
         Inr (Some \<lparr> item_id = tx_id tx, score = sc, source = tx \<rparr>)))))))))))))"

fun search_loop ::
  "env \<Rightarrow> pyval list \<Rightarrow> TransactionSearchItem list \<Rightarrow> exc + TransactionSearchItem list" where
  "search_loop E [] items = Inr items"
| "search_loop E (h # hs) items =
     bindE (map_hit E h) (\<lambda>r.
       search_loop E hs (case r of None \<Rightarrow> items | Some it \<Rightarrow> items @ [it]))"

text \<open>Lines 130-173: what the handler does with the response of the engine.\<close>

definition search_response ::
  "env \<Rightarrow> pyval \<Rightarrow> int \<Rightarrow> int \<Rightarrow> exc + TransactionSearchResponse" where
  "search_response E resp page size' =
     bindE (py_get resp ''hits'' (PDict [])) (\<lambda>hits.
     bindE (py_get hits ''total'' (PDict [])) (\<lambda>tot.
     bindE (py_get tot ''value'' (PInt 0)) (\<lambda>total.
     bindE (py_get hits ''hits'' (PList [])) (\<lambda>hl.
     bindE (py_iter hl) (\<lambda>hs.
     bindE (search_loop E hs []) (\<lambda>items.
     bindE (pyd_int E total) (\<lambda>n.
     Inr \<lparr> resp_total = n, resp_page = page, resp_size = size', resp_items = items \<rparr>)))))))"

text \<open>
  What the handler reads from a response, as functions of the response: the hits the loop
  of line 134 runs over, and the total of line 131 as the \<^verbatim>\<open>int\<close> field of the
  response model takes it.
\<close>

definition hits_of :: "pyval \<Rightarrow> exc + pyval list" where
  "hits_of resp =
     bindE (py_get resp ''hits'' (PDict [])) (\<lambda>hits.
     bindE (py_get hits ''hits'' (PList [])) py_iter)"

definition reported_total :: "env \<Rightarrow> pyval \<Rightarrow> exc + int" where
  "reported_total E resp =
     bindE (py_get resp ''hits'' (PDict [])) (\<lambda>hits.
     bindE (py_get hits ''total'' (PDict [])) (\<lambda>tot.
     bindE (py_get tot ''value'' (PInt 0)) (pyd_int E)))"

text \<open>The hit carries a non-empty string as \<open>_id\<close>, the document id the engine assigns.\<close>

definition has_doc_id :: "(string \<times> pyval) list \<Rightarrow> bool" where
  "has_doc_id hk = (case map_of hk ''_id'' of Some (PStr i) \<Rightarrow> i \<noteq> [] | _ \<Rightarrow> False)"

text \<open>
  The handler (lines 100-173). The first component of the result is the list of the
  calls made to the engine, the second the response or the exception that leaves the
  handler.
\<close>

definition search_transactions ::
  "env \<Rightarrow> string \<Rightarrow> string \<Rightarrow> string \<Rightarrow> int \<Rightarrow> int
     \<Rightarrow> es_request list \<times> (exc + TransactionSearchResponse)" where
  "search_transactions E client_id start_str end_str page size' =
     (case parse_iso E start_str of
        Inl e \<Rightarrow> ([], Inl e)
      | Inr start_dt \<Rightarrow>
     (case parse_iso E end_str of
        Inl e \<Rightarrow> ([], Inl e)
      | Inr end_dt \<Rightarrow>
     (let from' = (page - 1) * size';
          query = PDict [(''bool'', PDict [(''filter'', PList
                    [PDict [(''term'', PDict [(''client_id'', PStr client_id)])],
                     PDict [(''range'', PDict [(''created_at'',
                       PDict [(''gte'', PStr (isoformat start_dt)),
                              (''lte'', PStr (isoformat end_dt))])])]])])];
          sort = PList [PDict [(''created_at'', PDict [(''order'', PStr ''desc'')])]];
          req = \<lparr> req_index = ES_INDEX E, req_from = Some from', req_size = size',
                  req_query = query, req_sort = Some sort, req_aggs = None \<rparr>
      in case es_search E req of
           Inl e \<Rightarrow> ([req], Inl (HTTPException 500))
         | Inr resp \<Rightarrow> ([req], search_response E resp page size'))))"

subsection \<open>stats_daily\<close>

text \<open>\<^verbatim>\<open>totals_by_type[tkey] = val\<close>: a key that is present keeps its place and takes
  the new value, a new key goes to the end.\<close>

fun dict_set :: "(string \<times> 'v) list \<Rightarrow> string \<Rightarrow> 'v \<Rightarrow> (string \<times> 'v) list" where
  "dict_set [] k v = [(k, v)]"
| "dict_set ((k', v') # kvs) k v =
     (if k' = k then (k, v) # kvs else (k', v') # dict_set kvs k v)"

text \<open>Line 236, \<^verbatim>\<open>tkey = str(tb.get("key", ""))\<close>.\<close>

definition tkey :: "env \<Rightarrow> pyval \<Rightarrow> exc + string" where
  "tkey E tb = bindE (py_get tb ''key'' (PStr [])) (\<lambda>k. Inr (py_str E k))"

text \<open>The inner loop over the sub-buckets of a day (lines 235-244), on the pair of
  \<open>totals_by_type\<close> and \<open>total_all\<close>.\<close>

fun by_type_loop ::
  "env \<Rightarrow> pyval list \<Rightarrow> (string \<times> pyfloat) list \<times> pyfloat
     \<Rightarrow> exc + (string \<times> pyfloat) list \<times> pyfloat" where
  "by_type_loop E [] acc = Inr acc"
| "by_type_loop E (tb # tbs) acc =
     bindE (tkey E tb) (\<lambda>tk.
     bindE (py_get tb ''total_amount'' (PDict [])) (\<lambda>s.
     bindE (py_get s ''value'' (PFloat (FVal 0))) (\<lambda>v0.
     let val0 = py_or v0 (PFloat (FVal 0));
         val = (case py_float E val0 of Inr f \<Rightarrow> f | Inl e \<Rightarrow> FVal 0)
     in by_type_loop E tbs (dict_set (fst acc) tk val, fadd (snd acc) val))))"

text \<open>Line 234, \<^verbatim>\<open>by_type = b.get("by_type", {}).get("buckets", []) or []\<close>, as the
  list the loop runs over.\<close>

definition by_type_of :: "pyval \<Rightarrow> exc + pyval list" where
  "by_type_of b =
     bindE (py_get b ''by_type'' (PDict [])) (\<lambda>bt.
     bindE (py_get bt ''buckets'' (PList [])) (\<lambda>bl.
     py_iter (py_or bl (PList []))))"

text \<open>The body of the loop over the days (lines 228-248).\<close>

definition map_daily_bucket :: "env \<Rightarrow> pyval \<Rightarrow> exc + DailyTotalsBucket" where
  "map_daily_bucket E b =
     bindE (py_get b ''key_as_string'' PNone) (\<lambda>ks.
     bindE (parse_created_at E ks) (\<lambda>parsed.
     bindE (case parsed of None \<Rightarrow> utcfromtimestamp (PInt 0) | Some dt \<Rightarrow> Inr dt) (\<lambda>day'.
     bindE (by_type_of b) (\<lambda>by_type.
     bindE (by_type_loop E by_type ([], FVal 0)) (\<lambda>acc.
     Inr \<lparr> date = day', totalsByType = fst acc, totalAllTypes = snd acc \<rparr>)))))"

fun daily_loop ::
  "env \<Rightarrow> pyval list \<Rightarrow> DailyTotalsBucket list \<Rightarrow> exc + DailyTotalsBucket list" where
  "daily_loop E [] bs = Inr bs"
| "daily_loop E (b # rest) bs =
     bindE (map_daily_bucket E b) (\<lambda>bk. daily_loop E rest (bs @ [bk]))"

definition daily_aggs :: pyval where
  "daily_aggs =
     PDict [(''per_day'', PDict
       [(''date_histogram'', PDict [(''field'', PStr ''created_at''),
                                    (''fixed_interval'', PStr ''1d''),
                                    (''min_doc_count'', PInt 0)]),
        (''aggs'', PDict [(''by_type'', PDict
           [(''terms'', PDict [(''field'', PStr ''type''), (''size'', PInt 20)]),
            (''aggs'', PDict [(''total_amount'',
               PDict [(''sum'', PDict [(''field'', PStr ''amount'')])])])])])])]"

text \<open>Line 226,
  \<^verbatim>\<open>per_day = resp.get("aggregations", {}).get("per_day", {}).get("buckets", []) or []\<close>,
  as the list the loop runs over.\<close>

definition per_day_of :: "pyval \<Rightarrow> exc + pyval list" where
  "per_day_of resp =
     bindE (py_get resp ''aggregations'' (PDict [])) (\<lambda>ag.
     bindE (py_get ag ''per_day'' (PDict [])) (\<lambda>pd.
     bindE (py_get pd ''buckets'' (PList [])) (\<lambda>bl.
     py_iter (py_or bl (PList [])))))"

text \<open>Lines 224-250: what the handler does with the response of the engine.\<close>

definition daily_response ::
  "env \<Rightarrow> pyval \<Rightarrow> string \<Rightarrow> pydatetime \<Rightarrow> pydatetime \<Rightarrow> exc + DailyTotalsResponse" where
  "daily_response E resp client_id start_dt end_dt =
     bindE (per_day_of resp) (\<lambda>per_day.
     bindE (daily_loop E per_day []) (\<lambda>bs.
     Inr \<lparr> clientId = client_id, startDate = start_dt, endDate = end_dt, buckets = bs \<rparr>))"

text \<open>The handler (lines 184-250), with the calls made to the engine as above.\<close>

definition stats_daily ::
  "env \<Rightarrow> string \<Rightarrow> string \<Rightarrow> string \<Rightarrow> es_request list \<times> (exc + DailyTotalsResponse)" where
  "stats_daily E client_id start_str end_str =
     (case parse_iso E start_str of
        Inl e \<Rightarrow> ([], Inl e)
      | Inr start_dt \<Rightarrow>
     (case parse_iso E end_str of
        Inl e \<Rightarrow> ([], Inl e)
      | Inr end_dt \<Rightarrow>
     (let query = PDict [(''bool'', PDict [(''filter'', PList
                    [PDict [(''term'', PDict [(''client_id'', PStr client_id)])],
                     PDict [(''range'', PDict [(''created_at'',
                       PDict [(''gte'', PStr (isoformat start_dt)),
                              (''lte'', PStr (isoformat end_dt))])])]])])];
          req = \<lparr> req_index = ES_INDEX E, req_from = None, req_size = 0,
                  req_query = query, req_sort = None, req_aggs = Some daily_aggs \<rparr>
      in case es_search E req of
           Inl e \<Rightarrow> ([req], Inl (HTTPException 500))
         | Inr resp \<Rightarrow> ([req], daily_response E resp client_id start_dt end_dt))))"

section \<open>The Query Builder of the specification\<close>

text \<open>
  The filter as the specification words it: the conjunction of an exact match on the
  client identifier and an inclusive range on \<open>created_at\<close>, the bounds serialised in
  ISO-8601 form. The handlers do not call it; each builds its query in place.
\<close>

definition buildFilter :: "string \<Rightarrow> pydatetime \<Rightarrow> pydatetime \<Rightarrow> pyval" where
  "buildFilter client_id start_dt end_dt =
     PDict [(''bool'', PDict [(''filter'', PList
       [PDict [(''term'', PDict [(''client_id'', PStr client_id)])],
        PDict [(''range'', PDict [(''created_at'',
          PDict [(''gte'', PStr (isoformat start_dt)),
                 (''lte'', PStr (isoformat end_dt))])])]])])]"

section \<open>A reference environment\<close>

text \<open>
  One environment, for the concrete examples. Its parser reads the single format
  \<open>YYYY-MM-DDTHH:MM:SSZ\<close> into an aware UTC datetime and rejects every other string;
  its \<open>float\<close> reads a run of decimal digits, \<open>inf\<close> and \<open>nan\<close>; its validators accept an
  int for an \<^verbatim>\<open>int\<close> field and an int or a float for a \<^verbatim>\<open>float\<close> field. On the
  inputs of the examples these agree with dateutil, Python and pydantic.
\<close>

definition digit_of_char :: "char \<Rightarrow> int option" where
  "digit_of_char c = map_of (zip ''0123456789'' [0, 1, 2, 3, 4, 5, 6, 7, 8, 9]) c"

fun number_of :: "string \<Rightarrow> int \<Rightarrow> int option" where
  "number_of [] acc = Some acc"
| "number_of (c # cs) acc =
     (case digit_of_char c of None \<Rightarrow> None | Some d \<Rightarrow> number_of cs (10 * acc + d))"

definition days_in_month :: "int \<Rightarrow> int \<Rightarrow> int" where
  "days_in_month y m =
     (if m = 2 then (if y mod 4 = 0 \<and> (y mod 100 \<noteq> 0 \<or> y mod 400 = 0) then 29 else 28)
      else if m = 4 \<or> m = 6 \<or> m = 9 \<or> m = 11 then 30 else 31)"

definition isoparse_ref :: "string \<Rightarrow> exc + pydatetime" where
  "isoparse_ref s =
     (if length s = 20 \<and> s ! 4 = CHR ''-'' \<and> s ! 7 = CHR ''-'' \<and> s ! 10 = CHR ''T''
         \<and> s ! 13 = CHR '':'' \<and> s ! 16 = CHR '':'' \<and> s ! 19 = CHR ''Z''
      then (case (number_of (take 4 s) 0, number_of (take 2 (drop 5 s)) 0,
                  number_of (take 2 (drop 8 s)) 0, number_of (take 2 (drop 11 s)) 0,
                  number_of (take 2 (drop 14 s)) 0, number_of (take 2 (drop 17 s)) 0) of
              (Some y, Some m, Some d, Some h, Some mi, Some sec) \<Rightarrow>
                if 1 \<le> y \<and> 1 \<le> m \<and> m \<le> 12 \<and> 1 \<le> d \<and> d \<le> days_in_month y m
                   \<and> h \<le> 23 \<and> mi \<le> 59 \<and> sec \<le> 59
                then Inr \<lparr> year = y, month = m, day = d, hour = h, minute = mi, second = sec,
                           microsecond = 0, tzinfo = Some 0 \<rparr>
                else Inl ValueError
            | _ \<Rightarrow> Inl ValueError)
      else Inl ValueError)"

definition float_of_str_ref :: "string \<Rightarrow> exc + pyfloat" where
  "float_of_str_ref s =
     (if s = ''inf'' then Inr FInf
      else if s = ''nan'' then Inr FNaN
      else if s = [] then Inl ValueError
      else (case number_of s 0 of None \<Rightarrow> Inl ValueError | Some n \<Rightarrow> Inr (FVal (of_int n))))"

fun pyd_float_ref :: "pyval \<Rightarrow> exc + pyfloat" where
  "pyd_float_ref (PFloat f) = Inr f"
| "pyd_float_ref (PInt i) = int_to_float i"
| "pyd_float_ref _ = Inl ValidationError"

fun pyd_int_ref :: "pyval \<Rightarrow> exc + int" where
  "pyd_int_ref (PInt i) = Inr i"
| "pyd_int_ref _ = Inl ValidationError"

definition ref_env :: "(es_request \<Rightarrow> exc + pyval) \<Rightarrow> env" where
  "ref_env engine =
     \<lparr> isoparse = isoparse_ref, float_of_str = float_of_str_ref, repr_of = (\<lambda>v. ''<repr>''),
       pyd_float = pyd_float_ref, pyd_int = pyd_int_ref, es_search = engine,
       ES_INDEX = ''transactions'' \<rparr>"

text \<open>An engine that is down, and one that answers every request with the same body.\<close>

definition engine_down :: "es_request \<Rightarrow> exc + pyval" where
  "engine_down req = Inl TransportError"

definition engine_const :: "pyval \<Rightarrow> es_request \<Rightarrow> exc + pyval" where
  "engine_const body req = Inr body"

text \<open>The naive datetime 1970-01-01 00:00:00, the value of
  \<^verbatim>\<open>datetime.utcfromtimestamp(0)\<close>.\<close>

definition epoch :: pydatetime where
  "epoch = \<lparr> year = 1970, month = 1, day = 1, hour = 0, minute = 0, second = 0,
            microsecond = 0, tzinfo = None \<rparr>"

text \<open>
  Response bodies for the examples: the body of a search response with a reported total
  and a list of hits; two well-formed hits; a hit whose stored amount is the string
  \<open>inf\<close>; a daily bucket with a list of sub-buckets, and a sub-bucket; the body of an
  aggregation response with a list of daily buckets; a daily bucket without
  \<open>key_as_string\<close> and one whose \<open>key_as_string\<close> is no date, both with the numeric \<open>key\<close>.
\<close>

definition es_body :: "int \<Rightarrow> pyval list \<Rightarrow> pyval" where
  "es_body n hs =
     PDict [(''hits'', PDict [(''total'', PDict [(''value'', PInt n), (''relation'', PStr ''eq'')]),
                            (''hits'', PList hs)])]"



definition hit_inf :: pyval where
  "hit_inf = PDict [(''_id'', PStr ''c3''), (''_score'', PNone),
                    (''_source'', PDict [(''id'', PStr ''t3''), (''type'', PStr ''pix''),
                                         (''created_at'', PInt 1704067200),
                                         (''client_id'', PStr ''c1''), (''payer_id'', PStr ''p3''),
                                         (''amount'', PStr ''inf'')])]"

definition sub_bucket :: "string \<Rightarrow> pyfloat \<Rightarrow> pyval" where
  "sub_bucket k v = PDict [(''key'', PStr k), (''doc_count'', PInt 1),
                           (''total_amount'', PDict [(''value'', PFloat v)])]"

definition day_bucket :: "pyval list \<Rightarrow> pyval" where
  "day_bucket tbs = PDict [(''key_as_string'', PStr ''2024-01-01T00:00:00Z''),
                           (''key'', PInt 1704067200000),
                           (''by_type'', PDict [(''buckets'', PList tbs)])]"

definition aggs_body :: "pyval list \<Rightarrow> pyval" where
  "aggs_body bs = PDict [(''aggregations'', PDict [(''per_day'', PDict [(''buckets'', PList bs)])])]"

definition bucket_without_key_as_string :: pyval where
  "bucket_without_key_as_string =
     PDict [(''key'', PInt 1704067200000), (''doc_count'', PInt 0),
            (''by_type'', PDict [(''buckets'', PList [])])]"

definition bucket_with_garbage :: pyval where
  "bucket_with_garbage =
     PDict [(''key_as_string'', PStr ''garbage''), (''key'', PInt 1704153600000),
            (''doc_count'', PInt 1),
            (''by_type'', PDict [(''buckets'', PList [sub_bucket ''pix'' (FVal 5)])])]"

section \<open>Basic facts\<close>

lemma bindE_Inr [simp]: "bindE (Inr x) f = f x"
  by (simp add: bindE_def)

lemma bindE_Inl [simp]: "bindE (Inl e) f = Inl e"
  by (simp add: bindE_def)

lemma bindE_eq_Inr: "bindE m f = Inr y \<longleftrightarrow> (\<exists>x. m = Inr x \<and> f x = Inr y)"
  by (cases m) simp_all

section \<open>The Timestamp Normalizer\<close>

text \<open>
  C2. The ISO string \<open>2024-01-01T00:00:00Z\<close>, the epoch seconds \<open>1704067200\<close> and the
  epoch milliseconds \<open>1704067200000\<close> are mapped to the same UTC instant. The string
  gives the aware datetime the parser returns, the two numbers give one and the same
  naive datetime with the same calendar fields; all three denote the instant
  1704067200 seconds after the epoch.
\<close>

theorem normalizer_same_instant:
  assumes "isoparse E ''2024-01-01T00:00:00Z'' =
             Inr \<lparr> year = 2024, month = 1, day = 1, hour = 0, minute = 0, second = 0,
                   microsecond = 0, tzinfo = Some 0 \<rparr>"
  shows "\<exists>a b c. parse_created_at E (PStr ''2024-01-01T00:00:00Z'') = Inr (Some a)
           \<and> parse_created_at E (PInt 1704067200) = Inr (Some b)
           \<and> parse_created_at E (PInt 1704067200000) = Inr (Some c)
           \<and> utc_instant a = utc_instant b \<and> utc_instant b = utc_instant c
           \<and> utc_instant c = 1704067200 * 1000000
           \<and> b = c \<and> a\<lparr>tzinfo := None\<rparr> = b"
proof -
  let ?n = "\<lparr> year = 2024, month = 1, day = 1, hour = 0, minute = 0, second = 0,
              microsecond = 0, tzinfo = None \<rparr>"
  let ?a = "\<lparr> year = 2024, month = 1, day = 1, hour = 0, minute = 0, second = 0,
              microsecond = 0, tzinfo = Some 0 \<rparr>"
  have s: "parse_created_at E (PStr ''2024-01-01T00:00:00Z'') = Inr (Some ?a)"
    using assms by simp
  have i: "parse_created_at E (PInt 1704067200) = Inr (Some ?n)"
    by code_simp
  have m: "parse_created_at E (PInt 1704067200000) = Inr (Some ?n)"
    by code_simp
  have ua: "utc_instant ?a = 1704067200 * 1000000"
    by code_simp
  have un: "utc_instant ?n = 1704067200 * 1000000"
    by code_simp
  show ?thesis
    using s i m ua un by simp
qed

theorem normalizer_same_instant_witness:
  "\<exists>a b c. parse_created_at (ref_env engine_down) (PStr ''2024-01-01T00:00:00Z'') = Inr (Some a)
     \<and> parse_created_at (ref_env engine_down) (PInt 1704067200) = Inr (Some b)
     \<and> parse_created_at (ref_env engine_down) (PInt 1704067200000) = Inr (Some c)
     \<and> utc_instant a = utc_instant b \<and> utc_instant b = utc_instant c
     \<and> utc_instant c = 1704067200 * 1000000
     \<and> b = c \<and> a\<lparr>tzinfo := None\<rparr> = b"
proof -
  have h: "isoparse (ref_env engine_down) ''2024-01-01T00:00:00Z'' =
             Inr \<lparr> year = 2024, month = 1, day = 1, hour = 0, minute = 0, second = 0,
                   microsecond = 0, tzinfo = Some 0 \<rparr>"
    by code_simp
  show ?thesis
    by (rule normalizer_same_instant [OF h])
qed

text \<open>
  C3. The claim: the normalizer never raises. A \<open>created_at\<close> stored as epoch
  microseconds is above the threshold, is divided by 1000 and handed to
  \<^verbatim>\<open>utcfromtimestamp\<close> outside any \<^verbatim>\<open>try\<close>: the year is out of range and the
  \<open>ValueError\<close> leaves the function. The same holds below the year 1, for an int too
  large for a float, and for the float values infinity and NaN.
\<close>

theorem normalizer_raises:
  "parse_created_at E (PInt 1704067200000000) = Inl ValueError
   \<and> parse_created_at E (PInt (- 100000000000)) = Inl ValueError
   \<and> parse_created_at E (PInt (10 ^ 400)) = Inl OverflowError
   \<and> parse_created_at E (PFloat FInf) = Inl OverflowError
   \<and> parse_created_at E (PFloat FNaN) = Inl ValueError"
  by code_simp

text \<open>
  The normalizer returns \<open>None\<close> for the input \<open>None\<close>, for every string the ISO
  parser rejects, and for every list and dictionary.
\<close>

lemma normalizer_none_cases:
  "parse_created_at E PNone = Inr None"
  "isl (isoparse E s) \<Longrightarrow> parse_created_at E (PStr s) = Inr None"
  "parse_created_at E (PList xs) = Inr None"
  "parse_created_at E (PDict kvs) = Inr None"
  by (cases "isoparse E s"; simp)+

text \<open>
  C8. The claim: every input that is neither an instant, nor a number, nor a string gives
  Unparseable. A JSON boolean is such an input, but \<^verbatim>\<open>isinstance(value, (int, float))\<close>
  holds of a \<^verbatim>\<open>bool\<close>, so the numeric branch takes it as epoch seconds: \<open>True\<close> gives
  1970-01-01 00:00:01 and \<open>False\<close> gives 1970-01-01 00:00:00, where the claim says
  \<open>None\<close>.
\<close>

theorem normalizer_takes_bool_as_epoch:
  "parse_created_at E (PBool True)
     = Inr (Some \<lparr> year = 1970, month = 1, day = 1, hour = 0, minute = 0, second = 1,
                    microsecond = 0, tzinfo = None \<rparr>)
   \<and> parse_created_at E (PBool False)
     = Inr (Some \<lparr> year = 1970, month = 1, day = 1, hour = 0, minute = 0, second = 0,
                    microsecond = 0, tzinfo = None \<rparr>)"
  by code_simp

section \<open>The handlers: dates, the engine call and the filter\<close>

lemma parse_iso_Inl: "isl (isoparse E s) \<Longrightarrow> parse_iso E s = Inl (HTTPException 400)"
  by (cases "isoparse E s") (simp_all add: parse_iso_def)

lemma parse_iso_Inr: "isoparse E s = Inr dt \<Longrightarrow> parse_iso E s = Inr dt"
  by (simp add: parse_iso_def)

text \<open>
  C5. When \<open>startDate\<close> or \<open>endDate\<close> is rejected by the ISO parser, both handlers end
  with HTTP 400 and have made no call to the engine. When both dates parse, each
  handler makes exactly one call, and if that call raises, the handler ends with
  HTTP 500.
\<close>

theorem bad_date_400_engine_failure_500:
  "(isl (isoparse E sd) \<or> isl (isoparse E ed) \<longrightarrow>
      search_transactions E c sd ed p n = ([], Inl (HTTPException 400))
      \<and> stats_daily E c sd ed = ([], Inl (HTTPException 400)))
   \<and> (\<not> isl (isoparse E sd) \<and> \<not> isl (isoparse E ed) \<longrightarrow>
      (\<exists>req. fst (search_transactions E c sd ed p n) = [req]
         \<and> (isl (es_search E req) \<longrightarrow>
              snd (search_transactions E c sd ed p n) = Inl (HTTPException 500)))
      \<and> (\<exists>req. fst (stats_daily E c sd ed) = [req]
         \<and> (isl (es_search E req) \<longrightarrow>
              snd (stats_daily E c sd ed) = Inl (HTTPException 500))))"
proof (intro conjI impI)
  assume bad: "isl (isoparse E sd) \<or> isl (isoparse E ed)"
  show "search_transactions E c sd ed p n = ([], Inl (HTTPException 400))"
  proof (cases "isl (isoparse E sd)")
    case True
    then show ?thesis
      by (simp add: search_transactions_def parse_iso_Inl)
  next
    case False
    with bad have e: "parse_iso E ed = Inl (HTTPException 400)"
      by (simp add: parse_iso_Inl)
    from False obtain a where "isoparse E sd = Inr a"
      by (cases "isoparse E sd") simp_all
    then have "parse_iso E sd = Inr a"
      by (rule parse_iso_Inr)
    with e show ?thesis
      by (simp add: search_transactions_def)
  qed
  show "stats_daily E c sd ed = ([], Inl (HTTPException 400))"
  proof (cases "isl (isoparse E sd)")
    case True
    then show ?thesis
      by (simp add: stats_daily_def parse_iso_Inl)
  next
    case False
    with bad have e: "parse_iso E ed = Inl (HTTPException 400)"
      by (simp add: parse_iso_Inl)
    from False obtain a where "isoparse E sd = Inr a"
      by (cases "isoparse E sd") simp_all
    then have "parse_iso E sd = Inr a"
      by (rule parse_iso_Inr)
    with e show ?thesis
      by (simp add: stats_daily_def)
  qed
next
  assume ok: "\<not> isl (isoparse E sd) \<and> \<not> isl (isoparse E ed)"
  then obtain a b where "isoparse E sd = Inr a" and "isoparse E ed = Inr b"
    by (cases "isoparse E sd"; cases "isoparse E ed") simp_all
  then have ab: "parse_iso E sd = Inr a" "parse_iso E ed = Inr b"
    by (simp_all add: parse_iso_Inr)
  show "\<exists>req. fst (search_transactions E c sd ed p n) = [req]
          \<and> (isl (es_search E req) \<longrightarrow>
               snd (search_transactions E c sd ed p n) = Inl (HTTPException 500))"
    using ab by (auto simp: search_transactions_def Let_def split: sum.splits)
  show "\<exists>req. fst (stats_daily E c sd ed) = [req]
          \<and> (isl (es_search E req) \<longrightarrow>
               snd (stats_daily E c sd ed) = Inl (HTTPException 500))"
    using ab by (auto simp: stats_daily_def Let_def split: sum.splits)
qed

theorem bad_date_400_engine_failure_500_witness:
  "search_transactions (ref_env engine_down) ''c1'' ''not-a-date'' ''2024-01-02T00:00:00Z'' 1 10
     = ([], Inl (HTTPException 400))
   \<and> stats_daily (ref_env engine_down) ''c1'' ''2024-01-01T00:00:00Z'' ''not-a-date''
     = ([], Inl (HTTPException 400))
   \<and> (\<exists>req. fst (search_transactions (ref_env engine_down) ''c1'' ''2024-01-01T00:00:00Z''
                    ''2024-01-02T00:00:00Z'' 1 10) = [req])
   \<and> snd (search_transactions (ref_env engine_down) ''c1'' ''2024-01-01T00:00:00Z''
            ''2024-01-02T00:00:00Z'' 1 10) = Inl (HTTPException 500)
   \<and> snd (stats_daily (ref_env engine_down) ''c1'' ''2024-01-01T00:00:00Z''
            ''2024-01-02T00:00:00Z'') = Inl (HTTPException 500)"
proof -
  let ?E = "ref_env engine_down"
  have bad: "isl (isoparse ?E ''not-a-date'')"
    by code_simp
  have g1: "\<not> isl (isoparse ?E ''2024-01-01T00:00:00Z'')"
    by code_simp
  have g2: "\<not> isl (isoparse ?E ''2024-01-02T00:00:00Z'')"
    by code_simp
  have down: "isl (es_search ?E req)" for req
    by (simp add: ref_env_def engine_down_def)
  have a: "search_transactions ?E ''c1'' ''not-a-date'' ''2024-01-02T00:00:00Z'' 1 10
             = ([], Inl (HTTPException 400))"
    using bad_date_400_engine_failure_500
            [of ?E "''not-a-date''" "''2024-01-02T00:00:00Z''" "''c1''" 1 10] bad
    by blast
  have b: "stats_daily ?E ''c1'' ''2024-01-01T00:00:00Z'' ''not-a-date''
             = ([], Inl (HTTPException 400))"
    using bad_date_400_engine_failure_500
            [of ?E "''2024-01-01T00:00:00Z''" "''not-a-date''" "''c1''" 1 10] bad
    by blast
  have c: "(\<exists>req. fst (search_transactions ?E ''c1'' ''2024-01-01T00:00:00Z''
                          ''2024-01-02T00:00:00Z'' 1 10) = [req])
           \<and> snd (search_transactions ?E ''c1'' ''2024-01-01T00:00:00Z''
                    ''2024-01-02T00:00:00Z'' 1 10) = Inl (HTTPException 500)
           \<and> snd (stats_daily ?E ''c1'' ''2024-01-01T00:00:00Z''
                    ''2024-01-02T00:00:00Z'') = Inl (HTTPException 500)"
    using bad_date_400_engine_failure_500
            [of ?E "''2024-01-01T00:00:00Z''" "''2024-01-02T00:00:00Z''" "''c1''" 1 10]
          g1 g2 down
    by blast
  show ?thesis
    using a b c by blast
qed

text \<open>
  C9. For the same client and the same parsed bounds, the query the search handler sends
  and the query the daily aggregation handler sends are the same value: the filter of
  the Query Builder, an exact match on \<open>client_id\<close> and an inclusive range on
  \<open>created_at\<close> whose bounds are the ISO-8601 serialisations of start and end.
\<close>

theorem same_filter_in_both_handlers:
  assumes "isoparse E sd = Inr a" and "isoparse E ed = Inr b"
  shows "map req_query (fst (search_transactions E c sd ed p n)) = [buildFilter c a b]
         \<and> map req_query (fst (stats_daily E c sd ed)) = [buildFilter c a b]
         \<and> buildFilter c a b =
             PDict [(''bool'', PDict [(''filter'', PList
               [PDict [(''term'', PDict [(''client_id'', PStr c)])],
                PDict [(''range'', PDict [(''created_at'',
                  PDict [(''gte'', PStr (isoformat a)), (''lte'', PStr (isoformat b))])])]])])]"
proof -
  from assms have ab: "parse_iso E sd = Inr a" "parse_iso E ed = Inr b"
    by (simp_all add: parse_iso_Inr)
  have s: "map req_query (fst (search_transactions E c sd ed p n)) = [buildFilter c a b]"
    using ab by (simp add: search_transactions_def buildFilter_def Let_def split: sum.splits)
  have d: "map req_query (fst (stats_daily E c sd ed)) = [buildFilter c a b]"
    using ab by (simp add: stats_daily_def buildFilter_def Let_def split: sum.splits)
  show ?thesis
    using s d by (simp add: buildFilter_def)
qed

theorem same_filter_in_both_handlers_witness:
  "map req_query (fst (search_transactions (ref_env engine_down) ''c1''
       ''2024-01-01T00:00:00Z'' ''2024-01-02T00:00:00Z'' 3 10))
     = map req_query (fst (stats_daily (ref_env engine_down) ''c1''
       ''2024-01-01T00:00:00Z'' ''2024-01-02T00:00:00Z''))
   \<and> map req_query (fst (stats_daily (ref_env engine_down) ''c1''
       ''2024-01-01T00:00:00Z'' ''2024-01-02T00:00:00Z''))
     = [PDict [(''bool'', PDict [(''filter'', PList
         [PDict [(''term'', PDict [(''client_id'', PStr ''c1'')])],
          PDict [(''range'', PDict [(''created_at'',
            PDict [(''gte'', PStr ''2024-01-01T00:00:00+00:00''),
                   (''lte'', PStr ''2024-01-02T00:00:00+00:00'')])])]])])]]"
proof -
  let ?E = "ref_env engine_down"
  let ?a = "\<lparr> year = 2024, month = 1, day = 1, hour = 0, minute = 0, second = 0,
              microsecond = 0, tzinfo = Some 0 \<rparr>"
  let ?b = "\<lparr> year = 2024, month = 1, day = 2, hour = 0, minute = 0, second = 0,
              microsecond = 0, tzinfo = Some 0 \<rparr>"
  have h1: "isoparse ?E ''2024-01-01T00:00:00Z'' = Inr ?a"
    by code_simp
  have h2: "isoparse ?E ''2024-01-02T00:00:00Z'' = Inr ?b"
    by code_simp
  have fa: "isoformat ?a = ''2024-01-01T00:00:00+00:00''"
    by code_simp
  have fb: "isoformat ?b = ''2024-01-02T00:00:00+00:00''"
    by code_simp
  show ?thesis
    using same_filter_in_both_handlers [OF h1 h2, of "''c1''" 3 10] fa fb
    by (simp add: buildFilter_def)
qed

section \<open>The Result Mapper\<close>

lemma py_get_Inr: "py_get v k d = Inr x \<Longrightarrow> \<exists>kvs. v = PDict kvs \<and> x = dict_get kvs k d"
  by (cases v) simp_all

lemma us_to_datetime_zero: "us_to_datetime 0 = Inr epoch"
  by code_simp

text \<open>The loop body on a hit that is a dictionary with a dictionary as its source.\<close>

lemma map_hit_dict:
  assumes "py_or (dict_get hk ''_source'' (PDict [])) (PDict []) = PDict sk"
  shows "map_hit E (PDict hk) =
     bindE (parse_created_at E (dict_get sk ''created_at'' PNone)) (\<lambda>parsed.
     bindE (pyd_float E (py_or (dict_get hk ''_score'' PNone) (PFloat (FVal 0)))) (\<lambda>sc.
     Inr (Some \<lparr> item_id = py_str E (if truthy (dict_get sk ''id'' PNone)
                                       then dict_get sk ''id'' PNone
                                       else dict_get hk ''_id'' (PStr [])),
                 score = sc,
                 source = \<lparr> tx_id = py_str E (if truthy (dict_get sk ''id'' PNone)
                                                 then dict_get sk ''id'' PNone
                                                 else dict_get hk ''_id'' (PStr [])),
                            tx_type = py_str E (dict_get sk ''type'' (PStr [])),
                            tx_created_at = (case parsed of None \<Rightarrow> epoch | Some dt \<Rightarrow> dt),
                            tx_client_id = py_str E (dict_get sk ''client_id'' (PStr [])),
                            tx_payer_id = py_str E (dict_get sk ''payer_id'' (PStr [])),
                            tx_amount = (case py_float E (dict_get sk ''amount'' (PFloat (FVal 0)))
                                         of Inr f \<Rightarrow> f | Inl e \<Rightarrow> FVal 0) \<rparr> \<rparr>)))"
proof (cases "parse_created_at E (dict_get sk ''created_at'' PNone)")
  case (Inl e)
  then show ?thesis
    using assms by (simp add: map_hit_def)
next
  case (Inr parsed)
  then show ?thesis
    using assms
    by (cases parsed)
       (simp_all add: map_hit_def Transaction_init_def us_to_datetime_zero Let_def)
qed

lemma map_hit_source:
  assumes "map_hit E h = Inr r"
  shows "\<exists>hk sk. h = PDict hk
           \<and> py_or (dict_get hk ''_source'' (PDict [])) (PDict []) = PDict sk"
proof -
  from assms obtain src0 where s0: "py_get h ''_source'' (PDict []) = Inr src0"
    by (cases "py_get h ''_source'' (PDict [])") (simp_all add: map_hit_def)
  then obtain hk where h: "h = PDict hk" and src0: "src0 = dict_get hk ''_source'' (PDict [])"
    by (auto dest: py_get_Inr)
  from assms h have "\<exists>x. py_get (py_or (dict_get hk ''_source'' (PDict [])) (PDict [])) ''id'' PNone
                       = Inr x"
    by (cases "py_get (py_or (dict_get hk ''_source'' (PDict [])) (PDict [])) ''id'' PNone")
       (simp_all add: map_hit_def)
  then obtain sk where "py_or (dict_get hk ''_source'' (PDict [])) (PDict []) = PDict sk"
    by (auto dest: py_get_Inr)
  with h show ?thesis by blast
qed

text \<open>
  C7. For a hit the handler maps: an \<open>id\<close> missing from the source falls back to the
  \<open>_id\<close> of the hit; a missing \<open>type\<close>, \<open>client_id\<close> or \<open>payer_id\<close> becomes the empty
  string; an amount on which \<^verbatim>\<open>float\<close> raises becomes \<open>0.0\<close>; a \<open>created_at\<close> for which
  the normalizer returns \<open>None\<close> becomes the epoch, 1970-01-01 00:00:00.
\<close>

theorem hit_defaults:
  assumes "map_hit E (PDict hk) = Inr (Some it)"
    and "py_or (dict_get hk ''_source'' (PDict [])) (PDict []) = PDict sk"
  shows "(map_of sk ''id'' = None \<longrightarrow> tx_id (source it) = py_str E (dict_get hk ''_id'' (PStr [])))
       \<and> (map_of sk ''type'' = None \<longrightarrow> tx_type (source it) = [])
       \<and> (map_of sk ''client_id'' = None \<longrightarrow> tx_client_id (source it) = [])
       \<and> (map_of sk ''payer_id'' = None \<longrightarrow> tx_payer_id (source it) = [])
       \<and> (isl (py_float E (dict_get sk ''amount'' (PFloat (FVal 0))))
            \<longrightarrow> tx_amount (source it) = FVal 0)
       \<and> (parse_created_at E (dict_get sk ''created_at'' PNone) = Inr None
            \<longrightarrow> tx_created_at (source it) = epoch)"
proof -
  note eq = map_hit_dict [OF assms(2), of E]
  from assms(1) eq obtain parsed sc where
    p: "parse_created_at E (dict_get sk ''created_at'' PNone) = Inr parsed" and
    it: "it = \<lparr> item_id = py_str E (if truthy (dict_get sk ''id'' PNone)
                                       then dict_get sk ''id'' PNone
                                       else dict_get hk ''_id'' (PStr [])),
                 score = sc,
                 source = \<lparr> tx_id = py_str E (if truthy (dict_get sk ''id'' PNone)
                                                 then dict_get sk ''id'' PNone
                                                 else dict_get hk ''_id'' (PStr [])),
                            tx_type = py_str E (dict_get sk ''type'' (PStr [])),
                            tx_created_at = (case parsed of None \<Rightarrow> epoch | Some dt \<Rightarrow> dt),
                            tx_client_id = py_str E (dict_get sk ''client_id'' (PStr [])),
                            tx_payer_id = py_str E (dict_get sk ''payer_id'' (PStr [])),
                            tx_amount = (case py_float E (dict_get sk ''amount'' (PFloat (FVal 0)))
                                         of Inr f \<Rightarrow> f | Inl e \<Rightarrow> FVal 0) \<rparr> \<rparr>"
    by (auto simp: bindE_eq_Inr)
  show ?thesis
    using p by (auto simp: it dict_get_def split: sum.splits)
qed

theorem hit_defaults_witness:
  "map_hit (ref_env engine_down)
     (PDict [(''_id'', PStr ''doc1''), (''_score'', PNone),
             (''_source'', PDict [(''amount'', PStr ''abc'')])])
   = Inr (Some \<lparr> item_id = ''doc1'', score = FVal 0,
                 source = \<lparr> tx_id = ''doc1'', tx_type = [], tx_created_at = epoch,
                            tx_client_id = [], tx_payer_id = [], tx_amount = FVal 0 \<rparr> \<rparr>)
   \<and> tx_id \<lparr> tx_id = ''doc1'', tx_type = [], tx_created_at = epoch,
              tx_client_id = [], tx_payer_id = [], tx_amount = FVal 0 \<rparr> = ''doc1''
   \<and> isl (py_float (ref_env engine_down) (PStr ''abc''))"
proof -
  let ?E = "ref_env engine_down"
  let ?hk = "[(''_id'', PStr ''doc1''), (''_score'', PNone),
              (''_source'', PDict [(''amount'', PStr ''abc'')])]"
  let ?sk = "[(''amount'', PStr ''abc'')]"
  let ?it = "\<lparr> item_id = ''doc1'', score = FVal 0,
               source = \<lparr> tx_id = ''doc1'', tx_type = [], tx_created_at = epoch,
                          tx_client_id = [], tx_payer_id = [], tx_amount = FVal 0 \<rparr> \<rparr>"
  have m: "map_hit ?E (PDict ?hk) = Inr (Some ?it)"
    by code_simp
  have s: "py_or (dict_get ?hk ''_source'' (PDict [])) (PDict []) = PDict ?sk"
    by code_simp
  have f: "isl (py_float ?E (PStr ''abc''))"
    by code_simp
  have i: "map_of ?sk ''id'' = None"
    by simp
  from hit_defaults [OF m s] i have "tx_id (source ?it) = py_str ?E (dict_get ?hk ''_id'' (PStr []))"
    by blast
  then have "tx_id (source ?it) = ''doc1''"
    by (simp add: dict_get_def)
  with m f show ?thesis
    by simp
qed

section \<open>The search handler: items and total\<close>

lemma map_hit_not_skipped: "map_hit E h \<noteq> Inr None"
proof
  assume n: "map_hit E h = Inr None"
  then obtain hk sk where h: "h = PDict hk"
    and s: "py_or (dict_get hk ''_source'' (PDict [])) (PDict []) = PDict sk"
    using map_hit_source by blast
  from n show False
    unfolding h map_hit_dict [OF s] by (auto simp: bindE_eq_Inr)
qed

lemma search_loop_items:
  "search_loop E hs acc = Inr items \<Longrightarrow>
     \<exists>new. items = acc @ new \<and> map (map_hit E) hs = map (\<lambda>it. Inr (Some it)) new"
proof (induction hs arbitrary: acc)
  case Nil
  then show ?case by simp
next
  case (Cons h hs)
  from Cons.prems obtain r where r: "map_hit E h = Inr r"
    and rest: "search_loop E hs (case r of None \<Rightarrow> acc | Some it \<Rightarrow> acc @ [it]) = Inr items"
    by (auto simp: bindE_eq_Inr)
  from r obtain it where it: "r = Some it"
    using map_hit_not_skipped [of E h] by (cases r) simp_all
  from rest it have "search_loop E hs (acc @ [it]) = Inr items"
    by simp
  from Cons.IH [OF this] obtain new where
    "items = (acc @ [it]) @ new" and "map (map_hit E) hs = map (\<lambda>it. Inr (Some it)) new"
    by blast
  with r it have "items = acc @ (it # new)
      \<and> map (map_hit E) (h # hs) = map (\<lambda>it. Inr (Some it)) (it # new)"
    by simp
  then show ?case by blast
qed


text \<open>When the handler returns a response: the one call it made, the response of the
  engine, and what the response of the handler holds of it.\<close>

lemma search_transactions_returned:
  assumes "search_transactions E c sd ed p n = (calls, Inr r)"
  shows "\<exists>req resp hs.
           calls = [req] \<and> req_size req = n \<and> req_from req = Some ((p - 1) * n)
           \<and> es_search E req = Inr resp \<and> hits_of resp = Inr hs
           \<and> map (map_hit E) hs = map (\<lambda>it. Inr (Some it)) (resp_items r)
           \<and> reported_total E resp = Inr (resp_total r)
           \<and> resp_page r = p \<and> resp_size r = n"
proof -
  from assms obtain a where a: "parse_iso E sd = Inr a"
    by (cases "parse_iso E sd") (simp_all add: search_transactions_def)
  from assms a obtain b where b: "parse_iso E ed = Inr b"
    by (cases "parse_iso E ed") (simp_all add: search_transactions_def)
  define req where "req = \<lparr> req_index = ES_INDEX E, req_from = Some ((p - 1) * n), req_size = n,
       req_query = buildFilter c a b,
       req_sort = Some (PList [PDict [(''created_at'', PDict [(''order'', PStr ''desc'')])]]),
       req_aggs = None \<rparr>"
  have unf: "search_transactions E c sd ed p n =
               (case es_search E req of
                  Inl e \<Rightarrow> ([req], Inl (HTTPException 500))
                | Inr resp \<Rightarrow> ([req], search_response E resp p n))"
    using a b
    by (simp add: search_transactions_def req_def buildFilter_def Let_def split: sum.splits)
  from assms unf obtain resp where resp: "es_search E req = Inr resp"
    and calls: "calls = [req]" and sr: "search_response E resp p n = Inr r"
    by (cases "es_search E req") auto
  from sr obtain hits tot total hl hs items k where
    g1: "py_get resp ''hits'' (PDict []) = Inr hits" and
    g2: "py_get hits ''total'' (PDict []) = Inr tot" and
    g3: "py_get tot ''value'' (PInt 0) = Inr total" and
    g4: "py_get hits ''hits'' (PList []) = Inr hl" and
    g5: "py_iter hl = Inr hs" and
    g6: "search_loop E hs [] = Inr items" and
    g7: "pyd_int E total = Inr k" and
    rr: "r = \<lparr> resp_total = k, resp_page = p, resp_size = n, resp_items = items \<rparr>"
    unfolding search_response_def bindE_eq_Inr by force
  from search_loop_items [OF g6] have m: "map (map_hit E) hs = map (\<lambda>it. Inr (Some it)) items"
    by simp
  have h: "hits_of resp = Inr hs"
    using g1 g4 g5 by (simp add: hits_of_def)
  have t: "reported_total E resp = Inr k"
    using g1 g2 g3 g7 by (simp add: reported_total_def)
  have "calls = [req] \<and> req_size req = n \<and> req_from req = Some ((p - 1) * n)
           \<and> es_search E req = Inr resp \<and> hits_of resp = Inr hs
           \<and> map (map_hit E) hs = map (\<lambda>it. Inr (Some it)) (resp_items r)
           \<and> reported_total E resp = Inr (resp_total r)
           \<and> resp_page r = p \<and> resp_size r = n"
    using calls resp h t m by (simp add: rr req_def)
  then show ?thesis
    by blast
qed





section \<open>The items of a search response\<close>

lemma digits_of_nonempty: "digits_of n \<noteq> []"
  by (subst digits_of.simps) simp

lemma py_str_truthy_nonempty:
  assumes "\<forall>v. repr_of E v \<noteq> []" and "truthy v"
  shows "py_str E v \<noteq> []"
  using assms by (cases v) (simp_all add: show_int_def digits_of_nonempty)

lemma hit_id_nonempty:
  assumes "\<forall>v. repr_of E v \<noteq> []" and "has_doc_id hk"
  shows "py_str E (if truthy (dict_get sk ''id'' PNone) then dict_get sk ''id'' PNone
                    else dict_get hk ''_id'' (PStr [])) \<noteq> []"
proof (cases "truthy (dict_get sk ''id'' PNone)")
  case True
  with assms(1) show ?thesis
    by (simp add: py_str_truthy_nonempty)
next
  case False
  from assms(2) obtain i where "map_of hk ''_id'' = Some (PStr i)" and "i \<noteq> []"
    by (auto simp: has_doc_id_def split: option.splits pyval.splits)
  with False show ?thesis
    by (simp add: dict_get_def)
qed

text \<open>An item the loop body returns, in terms of the hit it was mapped from.\<close>

lemma map_hit_item:
  assumes "map_hit E h = Inr (Some it)"
  shows "\<exists>hk sk parsed sc.
           h = PDict hk
           \<and> py_or (dict_get hk ''_source'' (PDict [])) (PDict []) = PDict sk
           \<and> parse_created_at E (dict_get sk ''created_at'' PNone) = Inr parsed
           \<and> pyd_float E (py_or (dict_get hk ''_score'' PNone) (PFloat (FVal 0))) = Inr sc
           \<and> it = \<lparr> item_id = py_str E (if truthy (dict_get sk ''id'' PNone)
                                          then dict_get sk ''id'' PNone
                                          else dict_get hk ''_id'' (PStr [])),
                    score = sc,
                    source = \<lparr> tx_id = py_str E (if truthy (dict_get sk ''id'' PNone)
                                                    then dict_get sk ''id'' PNone
                                                    else dict_get hk ''_id'' (PStr [])),
                               tx_type = py_str E (dict_get sk ''type'' (PStr [])),
                               tx_created_at = (case parsed of None \<Rightarrow> epoch | Some dt \<Rightarrow> dt),
                               tx_client_id = py_str E (dict_get sk ''client_id'' (PStr [])),
                               tx_payer_id = py_str E (dict_get sk ''payer_id'' (PStr [])),
                               tx_amount =
                                 (case py_float E (dict_get sk ''amount'' (PFloat (FVal 0)))
                                  of Inr f \<Rightarrow> f | Inl e \<Rightarrow> FVal 0) \<rparr> \<rparr>"
proof -
  from map_hit_source [OF assms] obtain hk sk where h: "h = PDict hk"
    and s: "py_or (dict_get hk ''_source'' (PDict [])) (PDict []) = PDict sk"
    by blast
  from assms [unfolded h map_hit_dict [OF s]] obtain parsed sc where
    "parse_created_at E (dict_get sk ''created_at'' PNone) = Inr parsed"
    "pyd_float E (py_or (dict_get hk ''_score'' PNone) (PFloat (FVal 0))) = Inr sc"
    "it = \<lparr> item_id = py_str E (if truthy (dict_get sk ''id'' PNone)
                                          then dict_get sk ''id'' PNone
                                          else dict_get hk ''_id'' (PStr [])),
                    score = sc,
                    source = \<lparr> tx_id = py_str E (if truthy (dict_get sk ''id'' PNone)
                                                    then dict_get sk ''id'' PNone
                                                    else dict_get hk ''_id'' (PStr [])),
                               tx_type = py_str E (dict_get sk ''type'' (PStr [])),
                               tx_created_at = (case parsed of None \<Rightarrow> epoch | Some dt \<Rightarrow> dt),
                               tx_client_id = py_str E (dict_get sk ''client_id'' (PStr [])),
                               tx_payer_id = py_str E (dict_get sk ''payer_id'' (PStr [])),
                               tx_amount =
                                 (case py_float E (dict_get sk ''amount'' (PFloat (FVal 0)))
                                  of Inr f \<Rightarrow> f | Inl e \<Rightarrow> FVal 0) \<rparr> \<rparr>"
    by (auto simp: bindE_eq_Inr)
  with h s show ?thesis
    by blast
qed

text \<open>
  C1, as the claim states it, fails: a hit with its document id whose stored amount is
  the string \<open>inf\<close> is returned as an item, and the amount of its \<open>Transaction\<close> is
  infinite. The model declares a plain \<^verbatim>\<open>float\<close> field, which admits it.
\<close>

theorem infinite_amount_returned:
  "snd (search_transactions (ref_env (engine_const (es_body 1 [hit_inf])))
          ''c1'' ''2024-01-01T00:00:00Z'' ''2024-01-02T00:00:00Z'' 1 10)
   = Inr \<lparr> resp_total = 1, resp_page = 1, resp_size = 10,
           resp_items =
             [\<lparr> item_id = ''t3'', score = FVal 0,
                source = \<lparr> tx_id = ''t3'', tx_type = ''pix'',
                           tx_created_at = \<lparr> year = 2024, month = 1, day = 1, hour = 0,
                                             minute = 0, second = 0, microsecond = 0,
                                             tzinfo = None \<rparr>,
                           tx_client_id = ''c1'', tx_payer_id = ''p3'',
                           tx_amount = FInf \<rparr> \<rparr>] \<rparr>"
  by code_simp

text \<open>
  C1, amended. Every item of a response of the search handler is the mapping of the
  engine hit at its place, and no hit is left out. Its \<open>Transaction\<close> holds the
  defaulted fields, each present with its declared type: the id, which is a non-empty
  string for a hit that carries its document id (\<^verbatim>\<open>str\<close> of a value that is not a
  string being non-empty), the type, the client and the payer as strings, \<open>created_at\<close>
  as a datetime, and the amount as a float, which may be infinite or NaN. The
  validation of the \<open>Transaction\<close> never fails on these values: the loop body never
  skips a hit and, for a hit that is a dictionary whose source is absent, falsy or a
  dictionary, on which the normalizer does not raise and whose score is accepted, it
  returns the item.
\<close>

theorem search_items_satisfy_model:
  "(search_transactions E c sd ed p n = (calls, Inr r) \<longrightarrow>
      (\<exists>req resp hs.
         calls = [req] \<and> es_search E req = Inr resp \<and> hits_of resp = Inr hs
         \<and> length (resp_items r) = length hs
         \<and> (\<forall>k < length hs. \<exists>hk sk parsed.
               hs ! k = PDict hk
               \<and> py_or (dict_get hk ''_source'' (PDict [])) (PDict []) = PDict sk
               \<and> parse_created_at E (dict_get sk ''created_at'' PNone) = Inr parsed
               \<and> item_id (resp_items r ! k) = tx_id (source (resp_items r ! k))
               \<and> source (resp_items r ! k)
                   = \<lparr> tx_id = py_str E (if truthy (dict_get sk ''id'' PNone)
                                          then dict_get sk ''id'' PNone
                                          else dict_get hk ''_id'' (PStr [])),
                       tx_type = py_str E (dict_get sk ''type'' (PStr [])),
                       tx_created_at = (case parsed of None \<Rightarrow> epoch | Some dt \<Rightarrow> dt),
                       tx_client_id = py_str E (dict_get sk ''client_id'' (PStr [])),
                       tx_payer_id = py_str E (dict_get sk ''payer_id'' (PStr [])),
                       tx_amount = (case py_float E (dict_get sk ''amount'' (PFloat (FVal 0)))
                                    of Inr f \<Rightarrow> f | Inl e \<Rightarrow> FVal 0) \<rparr>
               \<and> ((\<forall>v. repr_of E v \<noteq> []) \<and> has_doc_id hk
                    \<longrightarrow> tx_id (source (resp_items r ! k)) \<noteq> []))))
   \<and> map_hit E h \<noteq> Inr None
   \<and> (\<forall>hk sk parsed sc.
        h = PDict hk
        \<and> py_or (dict_get hk ''_source'' (PDict [])) (PDict []) = PDict sk
        \<and> parse_created_at E (dict_get sk ''created_at'' PNone) = Inr parsed
        \<and> pyd_float E (py_or (dict_get hk ''_score'' PNone) (PFloat (FVal 0))) = Inr sc
        \<longrightarrow> (\<exists>it. map_hit E h = Inr (Some it) \<and> score it = sc
               \<and> item_id it = tx_id (source it)
               \<and> tx_amount (source it)
                   = (case py_float E (dict_get sk ''amount'' (PFloat (FVal 0)))
                      of Inr f \<Rightarrow> f | Inl e \<Rightarrow> FVal 0)))"
proof (intro conjI impI allI)
  assume ret: "search_transactions E c sd ed p n = (calls, Inr r)"
  from search_transactions_returned [OF ret] obtain req resp hs where
    f: "calls = [req]" "es_search E req = Inr resp" "hits_of resp = Inr hs"
    and m: "map (map_hit E) hs = map (\<lambda>it. Inr (Some it)) (resp_items r)"
    by blast
  have len: "length (resp_items r) = length hs"
    using map_eq_imp_length_eq [OF m] by simp
  have each: "\<exists>hk sk parsed.
               hs ! k = PDict hk
               \<and> py_or (dict_get hk ''_source'' (PDict [])) (PDict []) = PDict sk
               \<and> parse_created_at E (dict_get sk ''created_at'' PNone) = Inr parsed
               \<and> item_id (resp_items r ! k) = tx_id (source (resp_items r ! k))
               \<and> source (resp_items r ! k)
                   = \<lparr> tx_id = py_str E (if truthy (dict_get sk ''id'' PNone)
                                          then dict_get sk ''id'' PNone
                                          else dict_get hk ''_id'' (PStr [])),
                       tx_type = py_str E (dict_get sk ''type'' (PStr [])),
                       tx_created_at = (case parsed of None \<Rightarrow> epoch | Some dt \<Rightarrow> dt),
                       tx_client_id = py_str E (dict_get sk ''client_id'' (PStr [])),
                       tx_payer_id = py_str E (dict_get sk ''payer_id'' (PStr [])),
                       tx_amount = (case py_float E (dict_get sk ''amount'' (PFloat (FVal 0)))
                                    of Inr f \<Rightarrow> f | Inl e \<Rightarrow> FVal 0) \<rparr>
               \<and> ((\<forall>v. repr_of E v \<noteq> []) \<and> has_doc_id hk
                    \<longrightarrow> tx_id (source (resp_items r ! k)) \<noteq> [])"
    if k: "k < length hs" for k
  proof -
    from m have "map (map_hit E) hs ! k = map (\<lambda>it. Inr (Some it)) (resp_items r) ! k"
      by simp
    with k len have mk: "map_hit E (hs ! k) = Inr (Some (resp_items r ! k))"
      by simp
    from map_hit_item [OF mk] obtain hk sk parsed sc where
      h: "hs ! k = PDict hk"
      and s: "py_or (dict_get hk ''_source'' (PDict [])) (PDict []) = PDict sk"
      and pc: "parse_created_at E (dict_get sk ''created_at'' PNone) = Inr parsed"
      and it: "resp_items r ! k = \<lparr> item_id = py_str E (if truthy (dict_get sk ''id'' PNone)
                                          then dict_get sk ''id'' PNone
                                          else dict_get hk ''_id'' (PStr [])),
                    score = sc,
                    source = \<lparr> tx_id = py_str E (if truthy (dict_get sk ''id'' PNone)
                                                    then dict_get sk ''id'' PNone
                                                    else dict_get hk ''_id'' (PStr [])),
                               tx_type = py_str E (dict_get sk ''type'' (PStr [])),
                               tx_created_at = (case parsed of None \<Rightarrow> epoch | Some dt \<Rightarrow> dt),
                               tx_client_id = py_str E (dict_get sk ''client_id'' (PStr [])),
                               tx_payer_id = py_str E (dict_get sk ''payer_id'' (PStr [])),
                               tx_amount =
                                 (case py_float E (dict_get sk ''amount'' (PFloat (FVal 0)))
                                  of Inr f \<Rightarrow> f | Inl e \<Rightarrow> FVal 0) \<rparr> \<rparr>"
      by blast
    have ne: "tx_id (source (resp_items r ! k)) \<noteq> []"
      if "(\<forall>v. repr_of E v \<noteq> []) \<and> has_doc_id hk"
      using that hit_id_nonempty [of E hk sk] by (simp add: it)
    have "item_id (resp_items r ! k) = tx_id (source (resp_items r ! k))"
      by (simp add: it)
    moreover have "source (resp_items r ! k)
                   = \<lparr> tx_id = py_str E (if truthy (dict_get sk ''id'' PNone)
                                          then dict_get sk ''id'' PNone
                                          else dict_get hk ''_id'' (PStr [])),
                       tx_type = py_str E (dict_get sk ''type'' (PStr [])),
                       tx_created_at = (case parsed of None \<Rightarrow> epoch | Some dt \<Rightarrow> dt),
                       tx_client_id = py_str E (dict_get sk ''client_id'' (PStr [])),
                       tx_payer_id = py_str E (dict_get sk ''payer_id'' (PStr [])),
                       tx_amount = (case py_float E (dict_get sk ''amount'' (PFloat (FVal 0)))
                                    of Inr f \<Rightarrow> f | Inl e \<Rightarrow> FVal 0) \<rparr>"
      by (simp add: it)
    ultimately show ?thesis
      using h s pc ne by blast
  qed
  from f len each show "\<exists>req resp hs.
         calls = [req] \<and> es_search E req = Inr resp \<and> hits_of resp = Inr hs
         \<and> length (resp_items r) = length hs
         \<and> (\<forall>k < length hs. \<exists>hk sk parsed.
               hs ! k = PDict hk
               \<and> py_or (dict_get hk ''_source'' (PDict [])) (PDict []) = PDict sk
               \<and> parse_created_at E (dict_get sk ''created_at'' PNone) = Inr parsed
               \<and> item_id (resp_items r ! k) = tx_id (source (resp_items r ! k))
               \<and> source (resp_items r ! k)
                   = \<lparr> tx_id = py_str E (if truthy (dict_get sk ''id'' PNone)
                                          then dict_get sk ''id'' PNone
                                          else dict_get hk ''_id'' (PStr [])),
                       tx_type = py_str E (dict_get sk ''type'' (PStr [])),
                       tx_created_at = (case parsed of None \<Rightarrow> epoch | Some dt \<Rightarrow> dt),
                       tx_client_id = py_str E (dict_get sk ''client_id'' (PStr [])),
                       tx_payer_id = py_str E (dict_get sk ''payer_id'' (PStr [])),
                       tx_amount = (case py_float E (dict_get sk ''amount'' (PFloat (FVal 0)))
                                    of Inr f \<Rightarrow> f | Inl e \<Rightarrow> FVal 0) \<rparr>
               \<and> ((\<forall>v. repr_of E v \<noteq> []) \<and> has_doc_id hk
                    \<longrightarrow> tx_id (source (resp_items r ! k)) \<noteq> []))"
    by blast
next
  show "map_hit E h \<noteq> Inr None"
    by (rule map_hit_not_skipped)
next
  fix hk sk parsed sc
  assume a: "h = PDict hk
        \<and> py_or (dict_get hk ''_source'' (PDict [])) (PDict []) = PDict sk
        \<and> parse_created_at E (dict_get sk ''created_at'' PNone) = Inr parsed
        \<and> pyd_float E (py_or (dict_get hk ''_score'' PNone) (PFloat (FVal 0))) = Inr sc"
  then have s: "py_or (dict_get hk ''_source'' (PDict [])) (PDict []) = PDict sk"
    by simp
  show "\<exists>it. map_hit E h = Inr (Some it) \<and> score it = sc
               \<and> item_id it = tx_id (source it)
               \<and> tx_amount (source it)
                   = (case py_float E (dict_get sk ''amount'' (PFloat (FVal 0)))
                      of Inr f \<Rightarrow> f | Inl e \<Rightarrow> FVal 0)"
    using a by (simp add: map_hit_dict [OF s])
qed

theorem search_items_satisfy_model_witness:
  "\<exists>calls r. search_transactions (ref_env (engine_const (es_body 1 [hit_inf])))
                 ''c1'' ''2024-01-01T00:00:00Z'' ''2024-01-02T00:00:00Z'' 1 10 = (calls, Inr r)
      \<and> length (resp_items r) = 1
      \<and> item_id (resp_items r ! 0) = tx_id (source (resp_items r ! 0))
      \<and> tx_id (source (resp_items r ! 0)) \<noteq> []
      \<and> map_hit (ref_env (engine_const (es_body 1 [hit_inf]))) hit_inf \<noteq> Inr None"
proof -
  let ?body = "es_body 1 [hit_inf]"
  let ?E = "ref_env (engine_const ?body)"
  let ?call = "search_transactions ?E ''c1'' ''2024-01-01T00:00:00Z'' ''2024-01-02T00:00:00Z'' 1 10"
  note inst = search_items_satisfy_model
               [where E = ?E and c = "''c1''" and sd = "''2024-01-01T00:00:00Z''"
                  and ed = "''2024-01-02T00:00:00Z''" and p = 1 and n = 10 and h = hit_inf]
  obtain calls res where cr: "?call = (calls, res)"
    by (cases ?call)
  have "\<not> isl (snd ?call)"
    by code_simp
  with cr obtain r where res: "res = Inr r"
    by (cases res) simp_all
  from cr res have eq: "?call = (calls, Inr r)"
    by simp
  from inst [where calls = calls and r = r] have
    "?call = (calls, Inr r) \<longrightarrow>
      (\<exists>req resp hs.
         calls = [req] \<and> es_search ?E req = Inr resp \<and> hits_of resp = Inr hs
         \<and> length (resp_items r) = length hs
         \<and> (\<forall>k < length hs. \<exists>hk sk parsed.
               hs ! k = PDict hk
               \<and> py_or (dict_get hk ''_source'' (PDict [])) (PDict []) = PDict sk
               \<and> parse_created_at ?E (dict_get sk ''created_at'' PNone) = Inr parsed
               \<and> item_id (resp_items r ! k) = tx_id (source (resp_items r ! k))
               \<and> source (resp_items r ! k)
                   = \<lparr> tx_id = py_str ?E (if truthy (dict_get sk ''id'' PNone)
                                          then dict_get sk ''id'' PNone
                                          else dict_get hk ''_id'' (PStr [])),
                       tx_type = py_str ?E (dict_get sk ''type'' (PStr [])),
                       tx_created_at = (case parsed of None \<Rightarrow> epoch | Some dt \<Rightarrow> dt),
                       tx_client_id = py_str ?E (dict_get sk ''client_id'' (PStr [])),
                       tx_payer_id = py_str ?E (dict_get sk ''payer_id'' (PStr [])),
                       tx_amount = (case py_float ?E (dict_get sk ''amount'' (PFloat (FVal 0)))
                                    of Inr f \<Rightarrow> f | Inl e \<Rightarrow> FVal 0) \<rparr>
               \<and> ((\<forall>v. repr_of ?E v \<noteq> []) \<and> has_doc_id hk
                    \<longrightarrow> tx_id (source (resp_items r ! k)) \<noteq> [])))"
    by (rule conjunct1)
  from mp [OF this eq] obtain req resp hs where
    e: "es_search ?E req = Inr resp" and hs: "hits_of resp = Inr hs"
    and len: "length (resp_items r) = length hs"
    and all: "\<forall>k < length hs. \<exists>hk sk parsed.
               hs ! k = PDict hk
               \<and> py_or (dict_get hk ''_source'' (PDict [])) (PDict []) = PDict sk
               \<and> parse_created_at ?E (dict_get sk ''created_at'' PNone) = Inr parsed
               \<and> item_id (resp_items r ! k) = tx_id (source (resp_items r ! k))
               \<and> source (resp_items r ! k)
                   = \<lparr> tx_id = py_str ?E (if truthy (dict_get sk ''id'' PNone)
                                          then dict_get sk ''id'' PNone
                                          else dict_get hk ''_id'' (PStr [])),
                       tx_type = py_str ?E (dict_get sk ''type'' (PStr [])),
                       tx_created_at = (case parsed of None \<Rightarrow> epoch | Some dt \<Rightarrow> dt),
                       tx_client_id = py_str ?E (dict_get sk ''client_id'' (PStr [])),
                       tx_payer_id = py_str ?E (dict_get sk ''payer_id'' (PStr [])),
                       tx_amount = (case py_float ?E (dict_get sk ''amount'' (PFloat (FVal 0)))
                                    of Inr f \<Rightarrow> f | Inl e \<Rightarrow> FVal 0) \<rparr>
               \<and> ((\<forall>v. repr_of ?E v \<noteq> []) \<and> has_doc_id hk
                    \<longrightarrow> tx_id (source (resp_items r ! k)) \<noteq> [])"
    by (elim exE conjE)
  from e have resp: "resp = ?body"
    by (simp add: ref_env_def engine_const_def)
  have "hits_of ?body = Inr [hit_inf]"
    by code_simp
  with hs resp have h: "hs = [hit_inf]"
    by simp
  then have "(0::nat) < length hs"
    by simp
  with all obtain hk sk parsed where hk0: "hs ! 0 = PDict hk"
    and i: "item_id (resp_items r ! 0) = tx_id (source (resp_items r ! 0))"
    and ne: "(\<forall>v. repr_of ?E v \<noteq> []) \<and> has_doc_id hk
             \<longrightarrow> tx_id (source (resp_items r ! 0)) \<noteq> []"
    by blast
  from hk0 h have hk: "hit_inf = PDict hk"
    by simp
  have rep: "\<forall>v. repr_of ?E v \<noteq> []"
    by (simp add: ref_env_def)
  from hk have "has_doc_id hk"
    by (auto simp: hit_inf_def has_doc_id_def)
  with ne rep have id: "tx_id (source (resp_items r ! 0)) \<noteq> []"
    by blast
  from inst [where calls = calls and r = r] have "map_hit ?E hit_inf \<noteq> Inr None"
    by (elim conjE)
  with cr res len h i id show ?thesis
    by auto
qed

section \<open>The daily aggregation: total and per-type totals\<close>

lemma dict_set_fresh: "k \<notin> fst ` set kvs \<Longrightarrow> dict_set kvs k v = kvs @ [(k, v)]"
  by (induction kvs) auto

lemma by_type_loop_sum:
  assumes "by_type_loop E tbs acc = Inr acc'"
    and "distinct (map (tkey E) tbs)"
    and "\<forall>tb \<in> set tbs. tkey E tb \<notin> Inr ` fst ` set (fst acc)"
    and "snd acc = foldl fadd z (map snd (fst acc))"
  shows "snd acc' = foldl fadd z (map snd (fst acc'))"
  using assms
proof (induction tbs arbitrary: acc)
  case Nil
  then show ?case by simp
next
  case (Cons tb tbs)
  from Cons.prems(1) obtain tk val where
    tk: "tkey E tb = Inr tk" and
    rest: "by_type_loop E tbs (dict_set (fst acc) tk val, fadd (snd acc) val) = Inr acc'"
    by (auto simp: bindE_eq_Inr Let_def)
  from Cons.prems(3) tk have fresh: "tk \<notin> fst ` set (fst acc)"
    by auto
  then have ds: "dict_set (fst acc) tk val = fst acc @ [(tk, val)]"
    by (rule dict_set_fresh)
  let ?acc = "(dict_set (fst acc) tk val, fadd (snd acc) val)"
  have d: "distinct (map (tkey E) tbs)"
    using Cons.prems(2) by simp
  have k: "\<forall>t \<in> set tbs. tkey E t \<notin> Inr ` fst ` set (fst ?acc)"
  proof
    fix t assume t: "t \<in> set tbs"
    with Cons.prems(3) have "tkey E t \<notin> Inr ` fst ` set (fst acc)"
      by simp
    moreover from Cons.prems(2) have "tkey E tb \<notin> tkey E ` set tbs"
      by simp
    with t tk have "tkey E t \<noteq> Inr tk"
      by (metis imageI)
    ultimately show "tkey E t \<notin> Inr ` fst ` set (fst ?acc)"
      by (auto simp: ds)
  qed
  have s: "snd ?acc = foldl fadd z (map snd (fst ?acc))"
    using Cons.prems(4) by (simp add: ds)
  from Cons.IH [OF rest d k s] show ?case .
qed

section \<open>The daily aggregation handler\<close>

text \<open>The loop over the days returns the mapped buckets in order, and raises with the
  first bucket whose mapping raises.\<close>

lemma daily_loop_Inr:
  "daily_loop E bs acc = Inr out \<Longrightarrow>
     \<exists>new. out = acc @ new \<and> map (map_daily_bucket E) bs = map Inr new"
proof (induction bs arbitrary: acc)
  case Nil
  then show ?case by simp
next
  case (Cons b bs)
  from Cons.prems obtain bk where bk: "map_daily_bucket E b = Inr bk"
    and rest: "daily_loop E bs (acc @ [bk]) = Inr out"
    by (auto simp: bindE_eq_Inr)
  from Cons.IH [OF rest] obtain new where
    "out = (acc @ [bk]) @ new" and "map (map_daily_bucket E) bs = map Inr new"
    by blast
  with bk have "out = acc @ (bk # new)
      \<and> map (map_daily_bucket E) (b # bs) = map Inr (bk # new)"
    by simp
  then show ?case by blast
qed

lemma daily_loop_total:
  "map (map_daily_bucket E) bs = map Inr new \<Longrightarrow> daily_loop E bs acc = Inr (acc @ new)"
proof (induction bs arbitrary: acc new)
  case Nil
  then show ?case by simp
next
  case (Cons b bs)
  from Cons.prems obtain bk rest where new: "new = bk # rest"
    and bk: "map_daily_bucket E b = Inr bk"
    and m: "map (map_daily_bucket E) bs = map Inr rest"
    by (cases new) auto
  from Cons.IH [OF m, of "acc @ [bk]"] bk new show ?case
    by simp
qed

text \<open>With both dates parsed, the handler makes one call and, when the engine answers
  it, goes on with the response.\<close>

lemma stats_daily_answered:
  assumes "isoparse E sd = Inr a" and "isoparse E ed = Inr b"
    and "fst (stats_daily E c sd ed) = [req]" and "es_search E req = Inr resp"
  shows "snd (stats_daily E c sd ed) = daily_response E resp c a b"
proof -
  from assms(1,2) have ab: "parse_iso E sd = Inr a" "parse_iso E ed = Inr b"
    by (simp_all add: parse_iso_Inr)
  define q where "q = \<lparr> req_index = ES_INDEX E, req_from = None, req_size = 0,
       req_query = buildFilter c a b, req_sort = None, req_aggs = Some daily_aggs \<rparr>"
  have unf: "stats_daily E c sd ed =
               (case es_search E q of
                  Inl e \<Rightarrow> ([q], Inl (HTTPException 500))
                | Inr resp \<Rightarrow> ([q], daily_response E resp c a b))"
    using ab by (simp add: stats_daily_def q_def buildFilter_def Let_def split: sum.splits)
  then have "fst (stats_daily E c sd ed) = [q]"
    by (cases "es_search E q") simp_all
  with assms(3) have "q = req"
    by simp
  with unf assms(4) show ?thesis
    by simp
qed

lemma stats_daily_returned:
  assumes "stats_daily E c sd ed = (calls, Inr r)"
  shows "\<exists>req resp bs. calls = [req] \<and> es_search E req = Inr resp
           \<and> per_day_of resp = Inr bs
           \<and> map (map_daily_bucket E) bs = map Inr (buckets r)"
proof -
  from assms obtain a where a: "parse_iso E sd = Inr a"
    by (cases "parse_iso E sd") (simp_all add: stats_daily_def)
  from assms a obtain b where b: "parse_iso E ed = Inr b"
    by (cases "parse_iso E ed") (simp_all add: stats_daily_def)
  define q where "q = \<lparr> req_index = ES_INDEX E, req_from = None, req_size = 0,
       req_query = buildFilter c a b, req_sort = None, req_aggs = Some daily_aggs \<rparr>"
  have unf: "stats_daily E c sd ed =
               (case es_search E q of
                  Inl e \<Rightarrow> ([q], Inl (HTTPException 500))
                | Inr resp \<Rightarrow> ([q], daily_response E resp c a b))"
    using a b by (simp add: stats_daily_def q_def buildFilter_def Let_def split: sum.splits)
  from assms unf obtain resp where resp: "es_search E q = Inr resp"
    and calls: "calls = [q]" and dr: "daily_response E resp c a b = Inr r"
    by (cases "es_search E q") auto
  from dr obtain bs out where pd: "per_day_of resp = Inr bs"
    and dl: "daily_loop E bs [] = Inr out" and r: "buckets r = out"
    unfolding daily_response_def bindE_eq_Inr by force
  from daily_loop_Inr [OF dl] r have "map (map_daily_bucket E) bs = map Inr (buckets r)"
    by simp
  with calls resp pd show ?thesis
    by blast
qed

text \<open>The loop body on a bucket that is a dictionary.\<close>

lemma map_daily_bucket_dict:
  "map_daily_bucket E (PDict kvs) =
     bindE (parse_created_at E (dict_get kvs ''key_as_string'' PNone)) (\<lambda>parsed.
     bindE (by_type_of (PDict kvs)) (\<lambda>tbs.
     bindE (by_type_loop E tbs ([], FVal 0)) (\<lambda>acc.
     Inr \<lparr> date = (case parsed of None \<Rightarrow> epoch | Some dt \<Rightarrow> dt),
           totalsByType = fst acc, totalAllTypes = snd acc \<rparr>)))"
proof (cases "parse_created_at E (dict_get kvs ''key_as_string'' PNone)")
  case (Inl e)
  then show ?thesis
    by (simp add: map_daily_bucket_def)
next
  case (Inr parsed)
  then show ?thesis
    by (cases parsed) (simp_all add: map_daily_bucket_def us_to_datetime_zero)
qed

text \<open>
  C10. The date of a daily bucket is computed from the field \<open>key_as_string\<close> alone.
  When the engine answers the handler's call with buckets that are dictionaries, on
  whose \<open>key_as_string\<close> the normalizer does not raise and whose sub-buckets are mapped,
  the handler returns one bucket for each of them, in order; the date of each is the
  datetime the normalizer returns for \<open>key_as_string\<close>, and it is the epoch when that
  field is absent or the normalizer returns \<open>None\<close> for it, whatever the field \<open>key\<close>
  holds.
\<close>

theorem bucket_date_from_key_as_string:
  assumes "isoparse E sd = Inr a" and "isoparse E ed = Inr b"
    and "fst (stats_daily E c sd ed) = [req]" and "es_search E req = Inr resp"
    and "per_day_of resp = Inr bs"
    and "\<forall>k < length bs. \<exists>kvs tbs acc. bs ! k = PDict kvs
           \<and> \<not> isl (parse_created_at E (dict_get kvs ''key_as_string'' PNone))
           \<and> by_type_of (bs ! k) = Inr tbs
           \<and> by_type_loop E tbs ([], FVal 0) = Inr acc"
  shows "\<exists>r. snd (stats_daily E c sd ed) = Inr r
           \<and> length (buckets r) = length bs
           \<and> (\<forall>k < length bs. \<forall>kvs. bs ! k = PDict kvs \<longrightarrow>
                 date (buckets r ! k)
                   = (case parse_created_at E (dict_get kvs ''key_as_string'' PNone) of
                        Inr (Some dt) \<Rightarrow> dt | _ \<Rightarrow> epoch)
                 \<and> (map_of kvs ''key_as_string'' = None
                      \<or> (\<exists>v. map_of kvs ''key_as_string'' = Some v
                              \<and> parse_created_at E v = Inr None)
                    \<longrightarrow> date (buckets r ! k) = epoch))"
proof -
  let ?f = "\<lambda>b. projr (map_daily_bucket E b)"
  have each: "map_daily_bucket E (bs ! k) = Inr (?f (bs ! k))
        \<and> (\<forall>kvs. bs ! k = PDict kvs \<longrightarrow>
              date (?f (bs ! k))
                = (case parse_created_at E (dict_get kvs ''key_as_string'' PNone) of
                     Inr (Some dt) \<Rightarrow> dt | _ \<Rightarrow> epoch))"
    if k: "k < length bs" for k
  proof -
    from assms(6) k obtain kvs tbs acc where b: "bs ! k = PDict kvs"
      and p: "\<not> isl (parse_created_at E (dict_get kvs ''key_as_string'' PNone))"
      and t: "by_type_of (bs ! k) = Inr tbs"
      and l: "by_type_loop E tbs ([], FVal 0) = Inr acc"
      by blast
    from p obtain parsed where
      pp: "parse_created_at E (dict_get kvs ''key_as_string'' PNone) = Inr parsed"
      by (cases "parse_created_at E (dict_get kvs ''key_as_string'' PNone)") simp_all
    have m: "map_daily_bucket E (bs ! k)
               = Inr \<lparr> date = (case parsed of None \<Rightarrow> epoch | Some dt \<Rightarrow> dt),
                       totalsByType = fst acc, totalAllTypes = snd acc \<rparr>"
      using pp t l unfolding b by (simp add: map_daily_bucket_dict)
    show ?thesis
      using m pp b by (cases parsed) auto
  qed
  have "map (map_daily_bucket E) bs = map Inr (map ?f bs)"
  proof (rule nth_equalityI)
    show "length (map (map_daily_bucket E) bs) = length (map Inr (map ?f bs))"
      by simp
  next
    fix i assume "i < length (map (map_daily_bucket E) bs)"
    then have i: "i < length bs"
      by simp
    from each [OF i] have "map_daily_bucket E (bs ! i) = Inr (?f (bs ! i))"
      by blast
    with i show "map (map_daily_bucket E) bs ! i = map Inr (map ?f bs) ! i"
      by (simp only: nth_map length_map)
  qed
  then have loop: "daily_loop E bs [] = Inr (map ?f bs)"
    using daily_loop_total [of E bs "map ?f bs" "[]"] by simp
  let ?r = "\<lparr> clientId = c, startDate = a, endDate = b, buckets = map ?f bs \<rparr>"
  have ret: "snd (stats_daily E c sd ed) = Inr ?r"
    using stats_daily_answered [OF assms(1-4)] assms(5) loop
    by (simp add: daily_response_def)
  have dates: "date (buckets ?r ! k)
                 = (case parse_created_at E (dict_get kvs ''key_as_string'' PNone) of
                      Inr (Some dt) \<Rightarrow> dt | _ \<Rightarrow> epoch)
               \<and> (map_of kvs ''key_as_string'' = None
                    \<or> (\<exists>v. map_of kvs ''key_as_string'' = Some v
                            \<and> parse_created_at E v = Inr None)
                  \<longrightarrow> date (buckets ?r ! k) = epoch)"
    if k: "k < length bs" and b: "bs ! k = PDict kvs" for k kvs
  proof -
    from each [OF k] b have d: "date (buckets ?r ! k)
        = (case parse_created_at E (dict_get kvs ''key_as_string'' PNone) of
             Inr (Some dt) \<Rightarrow> dt | _ \<Rightarrow> epoch)"
      using k by simp
    then show ?thesis
      by (auto simp: dict_get_def)
  qed
  have all: "\<forall>k < length bs. \<forall>kvs. bs ! k = PDict kvs \<longrightarrow>
                 date (buckets ?r ! k)
                   = (case parse_created_at E (dict_get kvs ''key_as_string'' PNone) of
                        Inr (Some dt) \<Rightarrow> dt | _ \<Rightarrow> epoch)
                 \<and> (map_of kvs ''key_as_string'' = None
                      \<or> (\<exists>v. map_of kvs ''key_as_string'' = Some v
                              \<and> parse_created_at E v = Inr None)
                    \<longrightarrow> date (buckets ?r ! k) = epoch)"
    using dates by blast
  have len: "length (buckets ?r) = length bs"
    by simp
  show ?thesis
    by (rule exI [of _ ?r]) (use ret len all in blast)
qed

theorem bucket_date_from_key_as_string_witness:
  "\<exists>r. snd (stats_daily
               (ref_env (engine_const
                  (aggs_body [bucket_without_key_as_string, bucket_with_garbage])))
               ''c1'' ''2024-01-01T00:00:00Z'' ''2024-01-02T00:00:00Z'') = Inr r
      \<and> length (buckets r) = 2
      \<and> date (buckets r ! 0) = epoch
      \<and> date (buckets r ! 1) = epoch"
proof -
  let ?kvs0 = "[(''key'', PInt 1704067200000), (''doc_count'', PInt 0),
                (''by_type'', PDict [(''buckets'', PList [])])]"
  let ?kvs1 = "[(''key_as_string'', PStr ''garbage''), (''key'', PInt 1704153600000),
                (''doc_count'', PInt 1),
                (''by_type'', PDict [(''buckets'', PList [sub_bucket ''pix'' (FVal 5)])])]"
  let ?bs = "[bucket_without_key_as_string, bucket_with_garbage]"
  let ?E = "ref_env (engine_const (aggs_body ?bs))"
  let ?a = "\<lparr> year = 2024, month = 1, day = 1, hour = 0, minute = 0, second = 0,
              microsecond = 0, tzinfo = Some 0 \<rparr>"
  let ?b = "\<lparr> year = 2024, month = 1, day = 2, hour = 0, minute = 0, second = 0,
              microsecond = 0, tzinfo = Some 0 \<rparr>"
  have h1: "isoparse ?E ''2024-01-01T00:00:00Z'' = Inr ?a"
    by code_simp
  have h2: "isoparse ?E ''2024-01-02T00:00:00Z'' = Inr ?b"
    by code_simp
  have "length (fst (stats_daily ?E ''c1'' ''2024-01-01T00:00:00Z'' ''2024-01-02T00:00:00Z'')) = 1"
    by code_simp
  then obtain req where
    h3: "fst (stats_daily ?E ''c1'' ''2024-01-01T00:00:00Z'' ''2024-01-02T00:00:00Z'') = [req]"
    by (cases "fst (stats_daily ?E ''c1'' ''2024-01-01T00:00:00Z'' ''2024-01-02T00:00:00Z'')")
       simp_all
  have h4: "es_search ?E req = Inr (aggs_body ?bs)"
    by (simp add: ref_env_def engine_const_def)
  have h5: "per_day_of (aggs_body ?bs) = Inr ?bs"
    by code_simp
  have b0: "?bs ! 0 = PDict ?kvs0"
    by (simp add: bucket_without_key_as_string_def)
  have b1: "?bs ! 1 = PDict ?kvs1"
    by (simp add: bucket_with_garbage_def)
  have n0: "map_of ?kvs0 ''key_as_string'' = None"
    by simp
  have n1: "map_of ?kvs1 ''key_as_string'' = Some (PStr ''garbage'')"
    by simp
  have g: "parse_created_at ?E (PStr ''garbage'') = Inr None"
    by code_simp
  have p0: "\<not> isl (parse_created_at ?E (dict_get ?kvs0 ''key_as_string'' PNone))"
    by code_simp
  have p1: "\<not> isl (parse_created_at ?E (dict_get ?kvs1 ''key_as_string'' PNone))"
    by code_simp
  have t0: "by_type_of (?bs ! 0) = Inr []"
    by code_simp
  have t1: "by_type_of (?bs ! 1) = Inr [sub_bucket ''pix'' (FVal 5)]"
    by code_simp
  have l0: "by_type_loop ?E [] ([], FVal 0) = Inr ([], FVal 0)"
    by simp
  have l1: "by_type_loop ?E [sub_bucket ''pix'' (FVal 5)] ([], FVal 0)
              = Inr ([(''pix'', FVal 5)], FVal 5)"
    by code_simp
  have h6: "\<forall>k < length ?bs. \<exists>kvs tbs acc. ?bs ! k = PDict kvs
           \<and> \<not> isl (parse_created_at ?E (dict_get kvs ''key_as_string'' PNone))
           \<and> by_type_of (?bs ! k) = Inr tbs
           \<and> by_type_loop ?E tbs ([], FVal 0) = Inr acc"
  proof (intro allI impI)
    fix k assume "k < length ?bs"
    then consider "k = 0" | "k = 1"
      by (cases k) auto
    then show "\<exists>kvs tbs acc. ?bs ! k = PDict kvs
           \<and> \<not> isl (parse_created_at ?E (dict_get kvs ''key_as_string'' PNone))
           \<and> by_type_of (?bs ! k) = Inr tbs
           \<and> by_type_loop ?E tbs ([], FVal 0) = Inr acc"
    proof cases
      case 1
      with b0 p0 t0 l0 show ?thesis by blast
    next
      case 2
      with b1 p1 t1 l1 show ?thesis by blast
    qed
  qed
  from bucket_date_from_key_as_string [OF h1 h2 h3 h4 h5 h6]
  obtain r where r: "snd (stats_daily ?E ''c1'' ''2024-01-01T00:00:00Z''
                            ''2024-01-02T00:00:00Z'') = Inr r"
    and len: "length (buckets r) = length ?bs"
    and d: "\<forall>k < length ?bs. \<forall>kvs. ?bs ! k = PDict kvs \<longrightarrow>
                 date (buckets r ! k)
                   = (case parse_created_at ?E (dict_get kvs ''key_as_string'' PNone) of
                        Inr (Some dt) \<Rightarrow> dt | _ \<Rightarrow> epoch)
                 \<and> (map_of kvs ''key_as_string'' = None
                      \<or> (\<exists>v. map_of kvs ''key_as_string'' = Some v
                              \<and> parse_created_at ?E v = Inr None)
                    \<longrightarrow> date (buckets r ! k) = epoch)"
    by blast
  have "(0::nat) < length ?bs" and "(1::nat) < length ?bs"
    by simp_all
  with d b0 b1 n0 n1 g have "date (buckets r ! 0) = epoch" and "date (buckets r ! 1) = epoch"
    by blast+
  with r len show ?thesis
    by auto
qed

text \<open>For one bucket: with pairwise distinct keys every sub-bucket adds a new entry to
  \<open>totals_by_type\<close>, and \<open>total_all\<close> is the sum of its values.\<close>

lemma bucket_total_is_sum:
  assumes "map_daily_bucket E b = Inr bk"
    and "by_type_of b = Inr tbs"
    and "distinct (map (tkey E) tbs)"
  shows "totalAllTypes bk = py_sum (map snd (totalsByType bk))"
proof -
  from assms(1,2) obtain acc where
    l: "by_type_loop E tbs ([], FVal 0) = Inr acc" and
    bk: "totalsByType bk = fst acc" "totalAllTypes bk = snd acc"
    by (auto simp: map_daily_bucket_def bindE_eq_Inr)
  have "snd acc = foldl fadd (FVal 0) (map snd (fst acc))"
    by (rule by_type_loop_sum [OF l assms(3)]) simp_all
  with bk show ?thesis
    by (simp add: py_sum_def)
qed

text \<open>
  C6. Every bucket of a response of the daily aggregation handler is the mapping of the
  engine bucket at its place; when the per-type sub-buckets of that engine bucket have
  pairwise distinct keys, one sub-bucket for each type as a terms aggregation supplies
  them, \<open>totalAllTypes\<close> is the sum of the values of \<open>totalsByType\<close>, and unless that sum
  is NaN the two compare equal.
\<close>

theorem daily_total_is_sum:
  assumes "stats_daily E c sd ed = (calls, Inr r)"
  shows "\<exists>req resp bs.
           calls = [req] \<and> es_search E req = Inr resp \<and> per_day_of resp = Inr bs
           \<and> length (buckets r) = length bs
           \<and> (\<forall>k < length bs.
                 map_daily_bucket E (bs ! k) = Inr (buckets r ! k)
                 \<and> (\<forall>tbs. by_type_of (bs ! k) = Inr tbs \<and> distinct (map (tkey E) tbs)
                      \<longrightarrow> totalAllTypes (buckets r ! k)
                            = py_sum (map snd (totalsByType (buckets r ! k)))
                          \<and> (totalAllTypes (buckets r ! k) \<noteq> FNaN
                               \<longrightarrow> feq (totalAllTypes (buckets r ! k))
                                     (py_sum (map snd (totalsByType (buckets r ! k)))))))"
proof -
  from stats_daily_returned [OF assms] obtain req resp bs where
    c: "calls = [req]" and e: "es_search E req = Inr resp" and p: "per_day_of resp = Inr bs"
    and m: "map (map_daily_bucket E) bs = map Inr (buckets r)"
    by blast
  have len: "length (buckets r) = length bs"
    using map_eq_imp_length_eq [OF m] by simp
  have each: "map_daily_bucket E (bs ! k) = Inr (buckets r ! k)" if "k < length bs" for k
  proof -
    from m have "map (map_daily_bucket E) bs ! k = map Inr (buckets r) ! k"
      by simp
    with that len show ?thesis
      by simp
  qed
  have sums: "totalAllTypes (buckets r ! k) = py_sum (map snd (totalsByType (buckets r ! k)))
              \<and> (totalAllTypes (buckets r ! k) \<noteq> FNaN
                   \<longrightarrow> feq (totalAllTypes (buckets r ! k))
                         (py_sum (map snd (totalsByType (buckets r ! k)))))"
    if "k < length bs" and "by_type_of (bs ! k) = Inr tbs" and "distinct (map (tkey E) tbs)"
    for k tbs
    using bucket_total_is_sum [OF each [OF that(1)] that(2,3)] by (simp add: feq_def)
  have "\<forall>k < length bs.
                 map_daily_bucket E (bs ! k) = Inr (buckets r ! k)
                 \<and> (\<forall>tbs. by_type_of (bs ! k) = Inr tbs \<and> distinct (map (tkey E) tbs)
                      \<longrightarrow> totalAllTypes (buckets r ! k)
                            = py_sum (map snd (totalsByType (buckets r ! k)))
                          \<and> (totalAllTypes (buckets r ! k) \<noteq> FNaN
                               \<longrightarrow> feq (totalAllTypes (buckets r ! k))
                                     (py_sum (map snd (totalsByType (buckets r ! k))))))"
    using each sums by blast
  with c e p len show ?thesis
    by blast
qed

theorem daily_total_is_sum_witness:
  "\<exists>calls r. stats_daily
                (ref_env (engine_const
                   (aggs_body [day_bucket [sub_bucket ''a'' (FVal 1),
                                           sub_bucket ''b'' (FVal (5 / 2))]])))
                ''c1'' ''2024-01-01T00:00:00Z'' ''2024-01-02T00:00:00Z'' = (calls, Inr r)
      \<and> length (buckets r) = 1
      \<and> map totalsByType (buckets r) = [[(''a'', FVal 1), (''b'', FVal (5 / 2))]]
      \<and> map totalAllTypes (buckets r) = [FVal (7 / 2)]
      \<and> totalAllTypes (buckets r ! 0) = py_sum (map snd (totalsByType (buckets r ! 0)))
      \<and> feq (totalAllTypes (buckets r ! 0)) (py_sum (map snd (totalsByType (buckets r ! 0))))"
proof -
  let ?tbs = "[sub_bucket ''a'' (FVal 1), sub_bucket ''b'' (FVal (5 / 2))]"
  let ?body = "aggs_body [day_bucket ?tbs]"
  let ?E = "ref_env (engine_const ?body)"
  let ?call = "stats_daily ?E ''c1'' ''2024-01-01T00:00:00Z'' ''2024-01-02T00:00:00Z''"
  obtain calls res where cr: "?call = (calls, res)"
    by (cases ?call)
  have "\<not> isl (snd ?call)"
    by code_simp
  with cr obtain r where res: "res = Inr r"
    by (cases res) simp_all
  have t: "map_sum id (\<lambda>r. map totalsByType (buckets r)) (snd ?call)
             = Inr [[(''a'', FVal 1), (''b'', FVal (5 / 2))]]"
    by code_simp
  have a: "map_sum id (\<lambda>r. map totalAllTypes (buckets r)) (snd ?call) = Inr [FVal (7 / 2)]"
    by code_simp
  from t a cr res have ta: "map totalsByType (buckets r) = [[(''a'', FVal 1), (''b'', FVal (5 / 2))]]"
    "map totalAllTypes (buckets r) = [FVal (7 / 2)]"
    by simp_all
  from daily_total_is_sum [OF cr [unfolded res]] obtain req resp bs where
    e: "es_search ?E req = Inr resp" and p: "per_day_of resp = Inr bs"
    and len: "length (buckets r) = length bs"
    and all: "\<forall>k < length bs.
                 map_daily_bucket ?E (bs ! k) = Inr (buckets r ! k)
                 \<and> (\<forall>tbs. by_type_of (bs ! k) = Inr tbs \<and> distinct (map (tkey ?E) tbs)
                      \<longrightarrow> totalAllTypes (buckets r ! k)
                            = py_sum (map snd (totalsByType (buckets r ! k)))
                          \<and> (totalAllTypes (buckets r ! k) \<noteq> FNaN
                               \<longrightarrow> feq (totalAllTypes (buckets r ! k))
                                     (py_sum (map snd (totalsByType (buckets r ! k))))))"
    by blast
  from e have resp: "resp = ?body"
    by (simp add: ref_env_def engine_const_def)
  have "per_day_of ?body = Inr [day_bucket ?tbs]"
    by code_simp
  with p resp have bs: "bs = [day_bucket ?tbs]"
    by simp
  have bt: "by_type_of (day_bucket ?tbs) = Inr ?tbs"
    by code_simp
  have k: "map (tkey ?E) ?tbs = [Inr ''a'', Inr ''b'']"
    by code_simp
  have d: "distinct (map (tkey ?E) ?tbs)"
    unfolding k by simp
  from all bs bt d have s: "totalAllTypes (buckets r ! 0)
                            = py_sum (map snd (totalsByType (buckets r ! 0)))"
    and f: "totalAllTypes (buckets r ! 0) \<noteq> FNaN
            \<longrightarrow> feq (totalAllTypes (buckets r ! 0))
                  (py_sum (map snd (totalsByType (buckets r ! 0))))"
    by auto
  from ta(2) len bs have "totalAllTypes (buckets r ! 0) = FVal (7 / 2)"
    by (cases "buckets r") auto
  with f have f': "feq (totalAllTypes (buckets r ! 0))
                     (py_sum (map snd (totalsByType (buckets r ! 0))))"
    by simp
  from cr res len bs ta s f' show ?thesis
    by auto
qed

end
